theory Spec2Isabelle
  imports Complex_Main "HOL-Library.Log_Nat" "HOL-Library.Signed_Division"
begin

section \<open>Stale-branch scanner for a Bitbucket workspace (main.go)\<close>

text \<open>
  The program lists the repositories of a workspace, lists the branches of each
  repository, classifies every branch as stale or not by the age of its last commit
  (\<open>CheckIfStale\<close>), and reports the stale ones (\<open>ListStaleBranches\<close>).
  \<open>DeleteBranch\<close> deletes one branch unless its name is protected.

  The embedding follows the source function by function. Everything the Go code
  does beyond returning a value is explicit: the remote API and the clock are
  oracles over an abstract world, console output and HTTP calls are events of a
  trace, a failed type assertion is a panic value, and Go's \<open>float64\<close> and
  \<open>int64\<close> arithmetic is written out.
\<close>

subsection \<open>float64 arithmetic\<close>

text \<open>
  A finite \<open>float64\<close> is a rational number. Every arithmetic operation of Go
  computes the exact result and rounds it to the nearest number with a 53-bit
  significand, ties to the even significand (IEEE 754 binary64). The exponent range
  is left unbounded: the values of this program lie between \<open>2.7e-13\<close> and
  \<open>2.6e6\<close> in magnitude (or are zero), far from overflow and from the subnormal
  numbers.
\<close>

type_synonym f64 = rat

text \<open>Round to the nearest integer, ties to even.\<close>

definition rne :: "rat \<Rightarrow> int" where
  "rne y = (let n = \<lfloor>y\<rfloor>; r = y - of_int n in
            if r < 1/2 then n else if 1/2 < r then n + 1
            else if even n then n else n + 1)"

text \<open>The binary exponent of a positive number: \<open>2 powi ilog2 y \<le> y < 2 powi (ilog2 y + 1)\<close>.\<close>

definition ilog2 :: "rat \<Rightarrow> int" where
  "ilog2 y = (if 1 \<le> y then bitlen \<lfloor>y\<rfloor> - 1 else - bitlen (\<lceil>1 / y\<rceil> - 1))"

definition round_pos :: "rat \<Rightarrow> rat" where
  "round_pos y = (let e = ilog2 y - 52 in of_int (rne (y / 2 powi e)) * 2 powi e)"

definition f64_round :: "rat \<Rightarrow> f64" where
  "f64_round x = (if x = 0 then 0 else if 0 < x then round_pos x else - round_pos (- x))"

text \<open>Go's conversion \<open>float64(i)\<close> of an integer, \<open>x + y\<close> and \<open>x / y\<close> on \<open>float64\<close>.\<close>

definition f64_of_int64 :: "int \<Rightarrow> f64" where
  "f64_of_int64 i = f64_round (of_int i)"

definition f64_add :: "f64 \<Rightarrow> f64 \<Rightarrow> f64" where
  "f64_add x y = f64_round (x + y)"

definition f64_div :: "f64 \<Rightarrow> f64 \<Rightarrow> f64" where
  "f64_div x y = f64_round (x / y)"

text \<open>
  Go's conversion of a \<open>float64\<close> to an integer type discards the fraction
  (truncation towards zero).
\<close>

definition int64_of_f64 :: "f64 \<Rightarrow> int" where
  "int64_of_f64 x = (if 0 \<le> x then \<lfloor>x\<rfloor> else \<lceil>x\<rceil>)"

subsection \<open>Package time: Duration and Time\<close>

text \<open>
  \<open>time.Duration\<close> is an \<open>int64\<close> count of nanoseconds; \<open>is_int64\<close> is its range and
  \<open>int64_mul\<close> its wrapping multiplication. A \<open>time.Time\<close> is an instant, here a
  count of nanoseconds since the Unix epoch.
\<close>

type_synonym Duration = int
type_synonym Time = int

definition Second :: Duration where "Second = 1000000000"
definition Minute :: Duration where "Minute = 60 * Second"
definition Hour :: Duration where "Hour = 60 * Minute"

definition minDuration :: Duration where "minDuration = - (2 ^ 63)"
definition maxDuration :: Duration where "maxDuration = 2 ^ 63 - 1"

definition is_int64 :: "int \<Rightarrow> bool" where
  "is_int64 i = (minDuration \<le> i \<and> i \<le> maxDuration)"

definition wrap64 :: "int \<Rightarrow> int" where
  "wrap64 i = (i + 2 ^ 63) mod 2 ^ 64 - 2 ^ 63"

definition int64_mul :: "int \<Rightarrow> int \<Rightarrow> int" where
  "int64_mul a b = wrap64 (a * b)"

text \<open>
  \<open>Duration.Hours\<close> of package time:
  \<^verbatim>\<open>hour := d / Hour; nsec := d % Hour; return float64(hour) + float64(nsec)/(60*60*1e9)\<close>.
  Go's integer \<open>/\<close> and \<open>%\<close> truncate towards zero (\<open>sdiv\<close>, \<open>smod\<close>).
\<close>

definition Hours :: "Duration \<Rightarrow> f64" where
  "Hours d = (let hour = d sdiv Hour; nsec = d smod Hour in
      f64_add (f64_of_int64 hour) (f64_div (f64_of_int64 nsec) (60 * 60 * 1000000000)))"

text \<open>
  \<open>Time.Sub\<close>: the difference of two instants, saturated at the largest and the
  smallest Duration.
\<close>

definition time_Sub :: "Time \<Rightarrow> Time \<Rightarrow> Duration" where
  "time_Sub t u = (let d = t - u in
      if d < minDuration then minDuration else if maxDuration < d then maxDuration else d)"

subsection \<open>Decoded JSON, requests, responses, errors and events\<close>

text \<open>
  A value of type \<open>interface{}\<close> decoded from JSON; \<open>map[string]interface{}\<close> is
  an association list read with \<open>map_of\<close> (a missing key reads as \<open>None\<close>, Go's nil).
\<close>

datatype json =
    JNull
  | JBool bool
  | JNumber rat
  | JString string
  | JArray "json list"
  | JObject "(string \<times> json) list"

type_synonym jsonobj = "(string \<times> json) list"

datatype http_verb = GET | DELETE

record request =
  ReqVerb :: http_verb
  ReqURL :: string
  ReqToken :: string

text \<open>
  What a call of the HTTP client yields when it returns no error: the status code,
  the status line, and the value decoded into the variable given to \<open>SetResult\<close>.
\<close>

record response =
  StatusCode :: int
  Status :: string
  Result :: "jsonobj list"

text \<open>
  The error values of the program: an error returned by the HTTP client, and the
  three \<open>fmt.Errorf\<close> errors with their arguments.
\<close>

datatype error =
    ClientError string
  | FailedToFetchRepositories string
  | FailedToFetchBranches string string
  | FailedToDeleteBranch string string

datatype panic = InterfaceConversion

text \<open>The \<open>Printf\<close> calls of the program, each with its arguments.\<close>

datatype message =
    ErrorFetchingRepositories error
  | CheckingBranches string
  | ErrorFetchingBranches string error
  | StaleBranchFound "json option" string f64
  | Blaaa
  | BranchProtected string
  | BranchDeleted string string

datatype event = HttpCall request | Printed message

text \<open>
  The environment of a run: the remote API behind the HTTP client, the clock behind
  \<open>time.Now\<close>, and \<open>time.Parse\<close> with the RFC 3339 layout (\<open>None\<close> when it returns
  an error). The remote API and the clock may answer differently from call to call:
  they read and change a world \<open>'w\<close>.
\<close>

record 'w env =
  http_do :: "'w \<Rightarrow> request \<Rightarrow> (string + response) \<times> 'w"
  time_Now :: "'w \<Rightarrow> Time \<times> 'w"
  time_Parse :: "string \<Rightarrow> Time option"

record 'w state =
  world :: 'w
  trace :: "event list"

definition emit :: "event \<Rightarrow> 'w state \<Rightarrow> 'w state" where
  "emit e s = s\<lparr>trace := trace s @ [e]\<rparr>"

text \<open>One call of the HTTP client (\<open>Get\<close> or \<open>Delete\<close> of a resty request).\<close>

definition client_call :: "'w env \<Rightarrow> request \<Rightarrow> 'w state \<Rightarrow> (string + response) \<times> 'w state" where
  "client_call env req s =
     (case http_do env (world s) req of
        (res, w') \<Rightarrow> (res, \<lparr>world = w', trace = trace s @ [HttpCall req]\<rparr>))"

text \<open>\<open>time.Since(t)\<close> is \<open>time.Now().Sub(t)\<close>.\<close>

definition time_Since :: "'w env \<Rightarrow> Time \<Rightarrow> 'w state \<Rightarrow> Duration \<times> 'w state" where
  "time_Since env t s =
     (case time_Now env (world s) of (now, w') \<Rightarrow> (time_Sub now t, s\<lparr>world := w'\<rparr>))"

subsection \<open>The client\<close>

record BitbucketClient =
  BaseURL :: string
  AuthToken :: string
  Workspace :: string

definition NewBitbucketClient :: "string \<Rightarrow> string \<Rightarrow> BitbucketClient" where
  "NewBitbucketClient workspace authToken =
     \<lparr>BaseURL = ''https://api.bitbucket.org/2.0'', AuthToken = authToken, Workspace = workspace\<rparr>"

definition repositories_request :: "BitbucketClient \<Rightarrow> request" where
  "repositories_request b =
     \<lparr>ReqVerb = GET, ReqURL = BaseURL b @ ''/repositories/'' @ Workspace b,
      ReqToken = AuthToken b\<rparr>"

definition branches_request :: "BitbucketClient \<Rightarrow> string \<Rightarrow> request" where
  "branches_request b repoSlug =
     \<lparr>ReqVerb = GET,
      ReqURL = BaseURL b @ ''/repositories/'' @ Workspace b @ ''/'' @ repoSlug @ ''/refs/branches'',
      ReqToken = AuthToken b\<rparr>"

definition delete_request :: "BitbucketClient \<Rightarrow> string \<Rightarrow> string \<Rightarrow> request" where
  "delete_request b repoSlug branchName =
     \<lparr>ReqVerb = DELETE,
      ReqURL = BaseURL b @ ''/repositories/'' @ Workspace b @ ''/'' @ repoSlug
        @ ''/refs/branches/'' @ branchName,
      ReqToken = AuthToken b\<rparr>"

definition FetchRepositories ::
  "'w env \<Rightarrow> BitbucketClient \<Rightarrow> 'w state \<Rightarrow> (error + jsonobj list) \<times> 'w state" where
  "FetchRepositories env b s =
     (case client_call env (repositories_request b) s of
        (Inl err, s1) \<Rightarrow> (Inl (ClientError err), s1)
      | (Inr resp, s1) \<Rightarrow>
          if StatusCode resp \<noteq> 200 then (Inl (FailedToFetchRepositories (Status resp)), s1)
          else (Inr (Result resp), s1))"

definition FetchBranches ::
  "'w env \<Rightarrow> BitbucketClient \<Rightarrow> string \<Rightarrow> 'w state \<Rightarrow> (error + jsonobj list) \<times> 'w state" where
  "FetchBranches env b repoSlug s =
     (case client_call env (branches_request b repoSlug) s of
        (Inl err, s1) \<Rightarrow> (Inl (ClientError err), s1)
      | (Inr resp, s1) \<Rightarrow>
          if StatusCode resp \<noteq> 200
          then (Inl (FailedToFetchBranches repoSlug (Status resp)), s1)
          else (Inr (Result resp), s1))"

subsection \<open>CheckIfStale\<close>

text \<open>
  The two type assertions on \<open>branch["target"]\<close> and on its \<open>"date"\<close> panic when the
  value is missing or of another type. The returned Duration is the truncated day
  count multiplied by \<open>time.Hour\<close>, as the source has it.
\<close>

definition CheckIfStale ::
  "'w env \<Rightarrow> jsonobj \<Rightarrow> Duration \<Rightarrow> 'w state \<Rightarrow> (panic + bool \<times> Duration) \<times> 'w state" where
  "CheckIfStale env branch threshold s =
     (case map_of branch ''target'' of
        Some (JObject target) \<Rightarrow>
          (case map_of target ''date'' of
             Some (JString commitDateStr) \<Rightarrow>
               (case time_Parse env commitDateStr of
                  None \<Rightarrow> (Inr (False, 0), s)
                | Some commitDate \<Rightarrow>
                    (case time_Since env commitDate s of
                       (since, s1) \<Rightarrow>
                         (let daysSinceCommit = f64_div (Hours since) 24 in
                          if f64_div (Hours threshold) 24 < daysSinceCommit
                          then (Inr (True, int64_mul (int64_of_f64 daysSinceCommit) Hour), s1)
                          else (Inr (False, 0), s1))))
           | _ \<Rightarrow> (Inl InterfaceConversion, s))
      | _ \<Rightarrow> (Inl InterfaceConversion, s))"

subsection \<open>DeleteBranch\<close>

definition protectedBranches :: "string list" where
  "protectedBranches = [''main'', ''master'', ''develop'']"

text \<open>
  The \<open>range\<close> loop over the protected names: \<open>True\<close> when it reaches the early
  \<open>return nil\<close>, \<open>False\<close> when it runs to its end.
\<close>

fun protected_loop :: "string list \<Rightarrow> string \<Rightarrow> bool" where
  "protected_loop [] branchName = False"
| "protected_loop (protectedBranch # rest) branchName =
     (if branchName = protectedBranch then True else protected_loop rest branchName)"

definition DeleteBranch ::
  "'w env \<Rightarrow> BitbucketClient \<Rightarrow> string \<Rightarrow> string \<Rightarrow> 'w state \<Rightarrow> error option \<times> 'w state" where
  "DeleteBranch env b repoSlug branchName s =
     (if protected_loop protectedBranches branchName
      then (None, emit (Printed (BranchProtected branchName)) s)
      else
        (case client_call env (delete_request b repoSlug branchName) s of
           (Inl err, s1) \<Rightarrow> (Some (ClientError err), s1)
         | (Inr resp, s1) \<Rightarrow>
             if StatusCode resp \<noteq> 204
             then (Some (FailedToDeleteBranch branchName (Status resp)), s1)
             else (None, emit (Printed (BranchDeleted branchName repoSlug)) s1)))"

subsection \<open>ListStaleBranches\<close>

text \<open>
  The inner loop over the branches of one repository and the outer loop over the
  repositories. The result is \<open>None\<close> when the loop runs to its end and \<open>Some p\<close>
  when a type assertion panics. With the delete flag set the source prints
  \<open>Blaaa\<close>; its call of \<open>DeleteBranch\<close> is commented out.
\<close>

fun process_branches ::
  "'w env \<Rightarrow> string \<Rightarrow> Duration \<Rightarrow> bool \<Rightarrow> jsonobj list \<Rightarrow> 'w state \<Rightarrow> panic option \<times> 'w state" where
  "process_branches env repoSlug threshold del [] s = (None, s)"
| "process_branches env repoSlug threshold del (branch # rest) s =
     (case CheckIfStale env branch threshold s of
        (Inl p, s1) \<Rightarrow> (Some p, s1)
      | (Inr (isStale, nonInteractDays), s1) \<Rightarrow>
          process_branches env repoSlug threshold del rest
            (if isStale
             then (let s2 = emit (Printed (StaleBranchFound (map_of branch ''name'') repoSlug
                                    (f64_div (Hours nonInteractDays) 24))) s1
                   in if del then emit (Printed Blaaa) s2 else s2)
             else s1))"

fun process_repos ::
  "'w env \<Rightarrow> BitbucketClient \<Rightarrow> Duration \<Rightarrow> bool \<Rightarrow> jsonobj list \<Rightarrow> 'w state \<Rightarrow> panic option \<times> 'w state" where
  "process_repos env b threshold del [] s = (None, s)"
| "process_repos env b threshold del (repo # rest) s =
     (case map_of repo ''slug'' of
        Some (JString repoSlug) \<Rightarrow>
          (case FetchBranches env b repoSlug (emit (Printed (CheckingBranches repoSlug)) s) of
             (Inl err, s1) \<Rightarrow>
               process_repos env b threshold del rest
                 (emit (Printed (ErrorFetchingBranches repoSlug err)) s1)
           | (Inr branches, s1) \<Rightarrow>
               (case process_branches env repoSlug threshold del branches s1 of
                  (Some p, s2) \<Rightarrow> (Some p, s2)
                | (None, s2) \<Rightarrow> process_repos env b threshold del rest s2))
      | _ \<Rightarrow> (Some InterfaceConversion, s))"

definition ListStaleBranches ::
  "'w env \<Rightarrow> BitbucketClient \<Rightarrow> Duration \<Rightarrow> bool \<Rightarrow> 'w state \<Rightarrow> panic option \<times> 'w state" where
  "ListStaleBranches env b threshold del s =
     (case FetchRepositories env b s of
        (Inl err, s1) \<Rightarrow> (None, emit (Printed (ErrorFetchingRepositories err)) s1)
      | (Inr repos, s1) \<Rightarrow> process_repos env b threshold del repos s1)"

text \<open>The two constants of \<open>main\<close>: the threshold of three months and the delete flag.\<close>

definition main_threshold :: Duration where
  "main_threshold = 3 * 30 * 24 * Hour"

definition main_delete :: bool where
  "main_delete = False"

subsection \<open>Auxiliary definitions\<close>

text \<open>The second summand of \<open>Hours\<close>: the float64 fraction of an hour.\<close>

definition hours_frac :: "Duration \<Rightarrow> f64" where
  "hours_frac d = f64_div (f64_of_int64 (d smod Hour)) (60 * 60 * 1000000000)"

text \<open>The HTTP calls and the console lines of a trace, in order.\<close>

fun http_calls :: "event list \<Rightarrow> request list" where
  "http_calls [] = []"
| "http_calls (HttpCall req # es) = req # http_calls es"
| "http_calls (Printed m # es) = http_calls es"

fun printed :: "event list \<Rightarrow> message list" where
  "printed [] = []"
| "printed (HttpCall req # es) = printed es"
| "printed (Printed m # es) = m # printed es"

text \<open>The \<open>DELETE\<close> calls of a trace.\<close>

fun delete_calls :: "event list \<Rightarrow> request list" where
  "delete_calls [] = []"
| "delete_calls (HttpCall req # es) =
     (if ReqVerb req = DELETE then req # delete_calls es else delete_calls es)"
| "delete_calls (Printed m # es) = delete_calls es"

subsection \<open>A concrete environment\<close>

text \<open>
  A workspace \<open>acme\<close> whose API answers from a fixed table (a request that is not
  in the table fails in the transport), a clock that stands at a given instant, and
  a parser that knows one timestamp, midnight of 1 January 2024 UTC.
\<close>

definition ex_http ::
  "(request \<times> (string + response)) list \<Rightarrow> unit \<Rightarrow> request \<Rightarrow> (string + response) \<times> unit" where
  "ex_http table w req =
     (case map_of table req of None \<Rightarrow> (Inl ''no route to host'', w) | Some res \<Rightarrow> (res, w))"

definition ex_clock :: "Time \<Rightarrow> unit \<Rightarrow> Time \<times> unit" where
  "ex_clock now w = (now, w)"

definition ex_commit_time :: Time where
  "ex_commit_time = 1704067200000000000"

definition ex_parse :: "string \<Rightarrow> Time option" where
  "ex_parse str = (if str = ''2024-01-01T00:00:00Z'' then Some ex_commit_time else None)"

definition ex_env :: "Time \<Rightarrow> (request \<times> (string + response)) list \<Rightarrow> unit env" where
  "ex_env now table = \<lparr>http_do = ex_http table, time_Now = ex_clock now, time_Parse = ex_parse\<rparr>"

definition ex_client :: BitbucketClient where
  "ex_client = NewBitbucketClient ''acme'' ''s3cr3t''"

definition ex_state :: "unit state" where
  "ex_state = \<lparr>world = (), trace = []\<rparr>"

definition ex_branch :: "string \<Rightarrow> string \<Rightarrow> jsonobj" where
  "ex_branch name date =
     [(''name'', JString name),
      (''target'', JObject [(''hash'', JString ''0f3c2a''), (''date'', JString date)])]"

definition ex_ok :: "jsonobj list \<Rightarrow> string + response" where
  "ex_ok body = Inr \<lparr>StatusCode = 200, Status = ''200 OK'', Result = body\<rparr>"

definition ex_status :: "int \<Rightarrow> string \<Rightarrow> string + response" where
  "ex_status code line = Inr \<lparr>StatusCode = code, Status = line, Result = []\<rparr>"

definition ex_repo :: "string \<Rightarrow> jsonobj" where
  "ex_repo slug = [(''slug'', JString slug), (''is_private'', JBool True)]"

text \<open>
  A workspace with one repository \<open>repo-a\<close> that has one branch \<open>feature-x\<close>, whose
  deletion the API would accept.
\<close>

definition ex_workspace :: "(request \<times> (string + response)) list" where
  "ex_workspace =
     [(repositories_request ex_client, ex_ok [ex_repo ''repo-a'']),
      (branches_request ex_client ''repo-a'',
         ex_ok [ex_branch ''feature-x'' ''2024-01-01T00:00:00Z'']),
      (delete_request ex_client ''repo-a'' ''feature-x'', ex_status 204 ''204 No Content'')]"

text \<open>
  A workspace with two repositories; listing the branches of \<open>repo-a\<close> fails and
  \<open>repo-b\<close> has no branch.
\<close>

definition ex_workspace_broken :: "(request \<times> (string + response)) list" where
  "ex_workspace_broken =
     [(repositories_request ex_client, ex_ok [ex_repo ''repo-a'', ex_repo ''repo-b'']),
      (branches_request ex_client ''repo-a'', ex_status 500 ''500 Internal Server Error''),
      (branches_request ex_client ''repo-b'', ex_ok [])]"

text \<open>A workspace whose API rejects the token.\<close>

definition ex_workspace_unauthorized :: "(request \<times> (string + response)) list" where
  "ex_workspace_unauthorized =
     [(repositories_request ex_client, ex_status 401 ''401 Unauthorized'')]"

section \<open>Properties of float64 rounding\<close>

lemma rne_lower: "\<lfloor>y\<rfloor> \<le> rne y"
  by (simp add: rne_def Let_def)

lemma rne_upper: "rne y \<le> \<lfloor>y\<rfloor> + 1"
  by (simp add: rne_def Let_def)

lemma rne_mono: assumes "x \<le> y" shows "rne x \<le> rne y"
proof (cases "\<lfloor>x\<rfloor> = \<lfloor>y\<rfloor>")
  case True
  with assms show ?thesis
    by (auto simp: rne_def Let_def)
next
  case False
  with assms have "\<lfloor>x\<rfloor> + 1 \<le> \<lfloor>y\<rfloor>"
    using floor_mono [of x y] by linarith
  with rne_upper [of x] rne_lower [of y] show ?thesis by linarith
qed

lemma rne_of_int: "rne (of_int n) = n"
  by (simp add: rne_def)

lemma rne_near: assumes "\<bar>y - of_int m\<bar> < 1/2" shows "rne y = m"
proof (cases "of_int m \<le> y")
  case True
  with assms have "\<lfloor>y\<rfloor> = m" by (intro floor_unique) linarith+
  with assms True show ?thesis by (auto simp: rne_def Let_def)
next
  case False
  with assms have "\<lfloor>y\<rfloor> = m - 1" by (intro floor_unique) (simp, linarith)+
  with assms False show ?thesis by (auto simp: rne_def Let_def)
qed


lemma ilog2_lower: assumes "0 < y" shows "2 powi ilog2 y \<le> y"
proof (cases "1 \<le> y")
  case True
  define n where "n = \<lfloor>y\<rfloor>"
  have n1: "1 \<le> n" using True by (simp add: n_def le_floor_iff)
  then have n0: "0 < n" by simp
  have b1: "1 \<le> bitlen n" using n0 bitlen_eq_zero_iff [of n] bitlen_nonneg [of n] by linarith
  have "(2::int) ^ nat (bitlen n - 1) \<le> n" using bitlen_bounds [OF n0] by simp
  then have "(of_int ((2::int) ^ nat (bitlen n - 1)) :: rat) \<le> of_int n" by (simp only: of_int_le_iff)
  then have "(2::rat) ^ nat (bitlen n - 1) \<le> of_int n" by simp
  also have "\<dots> \<le> y" by (simp add: n_def)
  finally have "(2::rat) ^ nat (bitlen n - 1) \<le> y" .
  moreover have "(2::rat) powi (bitlen n - 1) = 2 ^ nat (bitlen n - 1)"
    using b1 by (simp add: power_int_def)
  ultimately show ?thesis using True by (simp add: ilog2_def n_def)
next
  case False
  define m where "m = \<lceil>1 / y\<rceil> - 1"
  have "1 < 1 / y" using False assms by simp
  then have m0: "0 < m" unfolding m_def by (simp add: less_ceiling_iff)
  have "1 / y \<le> of_int (m + 1)" by (simp add: m_def)
  also have "m + 1 \<le> 2 ^ nat (bitlen m)" using bitlen_bounds [OF m0] by simp
  then have "(of_int (m + 1) :: rat) \<le> of_int (2 ^ nat (bitlen m))" by (simp only: of_int_le_iff)
  finally have "1 / y \<le> 2 ^ nat (bitlen m)" by simp
  then have "1 / 2 ^ nat (bitlen m) \<le> y" using assms
    by (simp add: field_simps)
  moreover have "(2::rat) powi (- bitlen m) = 1 / 2 ^ nat (bitlen m)"
    using bitlen_nonneg [of m] by (simp add: power_int_def field_simps)
  ultimately show ?thesis using False by (simp add: ilog2_def m_def)
qed

lemma ilog2_upper: assumes "0 < y" shows "y < 2 powi (ilog2 y + 1)"
proof (cases "1 \<le> y")
  case True
  define n where "n = \<lfloor>y\<rfloor>"
  have n1: "1 \<le> n" using True by (simp add: n_def le_floor_iff)
  then have n0: "0 < n" by simp
  have "y < of_int (n + 1)" using floor_correct [of y] by (simp add: n_def)
  also have "n + 1 \<le> 2 ^ nat (bitlen n)" using bitlen_bounds [OF n0] by simp
  then have "(of_int (n + 1) :: rat) \<le> of_int (2 ^ nat (bitlen n))" by (simp only: of_int_le_iff)
  finally have "y < 2 ^ nat (bitlen n)" by simp
  moreover have "(2::rat) powi (bitlen n) = 2 ^ nat (bitlen n)"
    using bitlen_nonneg [of n] by (simp add: power_int_def)
  ultimately show ?thesis using True by (simp add: ilog2_def n_def)
next
  case False
  define m where "m = \<lceil>1 / y\<rceil> - 1"
  have "1 < 1 / y" using False assms by simp
  then have m0: "0 < m" unfolding m_def by (simp add: less_ceiling_iff)
  have b1: "1 \<le> bitlen m" using m0 bitlen_eq_zero_iff [of m] bitlen_nonneg [of m] by linarith
  have "(2::int) ^ nat (bitlen m - 1) \<le> m" using bitlen_bounds [OF m0] by simp
  then have "(of_int ((2::int) ^ nat (bitlen m - 1)) :: rat) \<le> of_int m" by (simp only: of_int_le_iff)
  then have "(2::rat) ^ nat (bitlen m - 1) \<le> of_int m" by simp
  also have "(of_int m :: rat) < 1 / y" unfolding m_def
    using ceiling_correct [of "1 / y"] by simp
  finally have "(2::rat) ^ nat (bitlen m - 1) < 1 / y" .
  then have "y < 1 / 2 ^ nat (bitlen m - 1)" using assms
    by (simp add: field_simps)
  moreover have "(2::rat) powi (- bitlen m + 1) = 1 / 2 ^ nat (bitlen m - 1)"
  proof -
    have "- bitlen m + 1 = - int (nat (bitlen m - 1))" using b1 by simp
    then have "(2::rat) powi (- bitlen m + 1) = 2 powi (- int (nat (bitlen m - 1)))" by simp
    also have "\<dots> = 1 / 2 ^ nat (bitlen m - 1)"
      by (simp only: power_int_minus power_int_of_nat) (simp add: field_simps)
    finally show ?thesis .
  qed
  ultimately show ?thesis using False by (simp add: ilog2_def m_def)
qed

lemma powi2_le_less: assumes "(2::rat) powi k \<le> y" "y < 2 powi (j + 1)" shows "k \<le> j"
proof (rule ccontr)
  assume "\<not> k \<le> j"
  then have "j + 1 \<le> k" by simp
  then have "(2::rat) powi (j + 1) \<le> 2 powi k" by (intro power_int_increasing) simp_all
  with assms show False by linarith
qed

lemma ilog2_unique: assumes "2 powi k \<le> y" "y < 2 powi (k + 1)" shows "ilog2 y = k"
proof -
  have "(0::rat) < 2 powi k" by simp
  with assms have y: "0 < y" by linarith
  have "k \<le> ilog2 y" using powi2_le_less [OF assms(1) ilog2_upper [OF y]] .
  moreover have "ilog2 y \<le> k" using powi2_le_less [OF ilog2_lower [OF y] assms(2)] .
  ultimately show ?thesis by simp
qed

lemma ilog2_mono: assumes "0 < x" "x \<le> y" shows "ilog2 x \<le> ilog2 y"
proof -
  have "2 powi ilog2 x \<le> y" using ilog2_lower [OF assms(1)] assms(2) by linarith
  moreover have "y < 2 powi (ilog2 y + 1)" using assms by (intro ilog2_upper) linarith
  ultimately show ?thesis by (rule powi2_le_less)
qed


lemma round_pos_unfold:
  "round_pos y = of_int (rne (y / 2 powi (ilog2 y - 52))) * 2 powi (ilog2 y - 52)"
  by (simp add: round_pos_def Let_def)

lemma round_pos_eq:
  assumes "2 powi k \<le> y" "y < 2 powi (k + 1)"
  shows "round_pos y = of_int (rne (y / 2 powi (k - 52))) * 2 powi (k - 52)"
  using ilog2_unique [OF assms] by (simp add: round_pos_unfold)

lemma round_pos_evalI:
  assumes "2 powi k \<le> y" "y < 2 powi (k + 1)" "\<bar>y / 2 powi (k - 52) - of_int m\<bar> < 1/2"
  shows "round_pos y = of_int m * 2 powi (k - 52)"
  using round_pos_eq [OF assms(1,2)] rne_near [OF assms(3)] by simp

lemma powi2_52: "of_int (2 ^ 52) * 2 powi (k - 52) = (2::rat) powi k"
proof -
  have "52 + (k - 52) = k" by simp
  then show ?thesis using power_int_add [of "2::rat" 52 "k - 52"] by simp
qed

lemma powi2_53: "of_int (2 ^ 53) * 2 powi (k - 52) = (2::rat) powi (k + 1)"
proof -
  have "53 + (k - 52) = k + 1" by simp
  then show ?thesis using power_int_add [of "2::rat" 53 "k - 52"] by (simp add: add.commute)
qed

lemma scaled_bounds:
  assumes "0 < y"
  shows "of_int (2 ^ 52) \<le> y / 2 powi (ilog2 y - 52)"
    and "y / 2 powi (ilog2 y - 52) \<le> of_int (2 ^ 53)"
proof -
  have p: "(0::rat) < 2 powi (ilog2 y - 52)" by simp
  from ilog2_lower [OF assms] have "of_int (2 ^ 52) * 2 powi (ilog2 y - 52) \<le> y"
    by (simp only: powi2_52)
  with p show "of_int (2 ^ 52) \<le> y / 2 powi (ilog2 y - 52)"
    by (simp only: pos_le_divide_eq)
  from ilog2_upper [OF assms] have "y \<le> of_int (2 ^ 53) * 2 powi (ilog2 y - 52)"
    by (simp only: powi2_53)
  with p show "y / 2 powi (ilog2 y - 52) \<le> of_int (2 ^ 53)"
    by (simp only: pos_divide_le_eq)
qed

lemma round_pos_lower: assumes "0 < y" shows "2 powi ilog2 y \<le> round_pos y"
proof -
  have "rne (of_int (2 ^ 52)) \<le> rne (y / 2 powi (ilog2 y - 52))"
    using scaled_bounds(1) [OF assms] by (rule rne_mono)
  then have "(2::int) ^ 52 \<le> rne (y / 2 powi (ilog2 y - 52))" by (simp only: rne_of_int)
  then have "(of_int (2 ^ 52) :: rat) \<le> of_int (rne (y / 2 powi (ilog2 y - 52)))"
    by (simp only: of_int_le_iff)
  then have "of_int (2 ^ 52) * 2 powi (ilog2 y - 52)
      \<le> of_int (rne (y / 2 powi (ilog2 y - 52))) * (2::rat) powi (ilog2 y - 52)"
    by (rule mult_right_mono) simp
  then show ?thesis by (simp only: powi2_52 round_pos_unfold)
qed

lemma round_pos_upper: assumes "0 < y" shows "round_pos y \<le> 2 powi (ilog2 y + 1)"
proof -
  have "rne (y / 2 powi (ilog2 y - 52)) \<le> rne (of_int (2 ^ 53))"
    using scaled_bounds(2) [OF assms] by (rule rne_mono)
  then have "rne (y / 2 powi (ilog2 y - 52)) \<le> (2::int) ^ 53" by (simp only: rne_of_int)
  then have "(of_int (rne (y / 2 powi (ilog2 y - 52))) :: rat) \<le> of_int (2 ^ 53)"
    by (simp only: of_int_le_iff)
  then have "of_int (rne (y / 2 powi (ilog2 y - 52))) * 2 powi (ilog2 y - 52)
      \<le> of_int (2 ^ 53) * (2::rat) powi (ilog2 y - 52)"
    by (rule mult_right_mono) simp
  then show ?thesis by (simp only: powi2_53 round_pos_unfold)
qed

lemma round_pos_mono: assumes "0 < x" "x \<le> y" shows "round_pos x \<le> round_pos y"
proof (cases "ilog2 x = ilog2 y")
  case True
  have "x / 2 powi (ilog2 y - 52) \<le> y / 2 powi (ilog2 y - 52)"
    using assms(2) by (rule divide_right_mono) simp
  then have "rne (x / 2 powi (ilog2 y - 52)) \<le> rne (y / 2 powi (ilog2 y - 52))"
    by (rule rne_mono)
  then have "(of_int (rne (x / 2 powi (ilog2 y - 52))) :: rat)
      \<le> of_int (rne (y / 2 powi (ilog2 y - 52)))"
    by (simp only: of_int_le_iff)
  then have "of_int (rne (x / 2 powi (ilog2 y - 52))) * 2 powi (ilog2 y - 52)
      \<le> of_int (rne (y / 2 powi (ilog2 y - 52))) * (2::rat) powi (ilog2 y - 52)"
    by (rule mult_right_mono) simp
  with True show ?thesis by (simp only: round_pos_unfold)
next
  case False
  have y: "0 < y" using assms by linarith
  from False ilog2_mono [OF assms] have "ilog2 x + 1 \<le> ilog2 y" by linarith
  then have "(2::rat) powi (ilog2 x + 1) \<le> 2 powi ilog2 y"
    by (intro power_int_increasing) simp_all
  with round_pos_upper [OF assms(1)] round_pos_lower [OF y] show ?thesis by linarith
qed

lemma round_pos_pos: assumes "0 < y" shows "0 < round_pos y"
proof -
  have "(0::rat) < 2 powi ilog2 y" by simp
  with round_pos_lower [OF assms] show ?thesis by linarith
qed

lemma f64_round_mono: assumes "x \<le> y" shows "f64_round x \<le> f64_round y"
proof -
  consider "0 < x" | "x \<le> 0" "0 \<le> y" | "y < 0" by linarith
  then show ?thesis
  proof cases
    case 1
    with assms have "0 < y" by linarith
    with 1 round_pos_mono [OF 1 assms] show ?thesis by (simp add: f64_round_def)
  next
    case 2
    have "f64_round x \<le> 0"
      using round_pos_pos [of "- x"] 2(1) by (cases "x = 0") (simp_all add: f64_round_def)
    moreover have "0 \<le> f64_round y"
      using round_pos_pos [of y] 2(2) by (cases "y = 0") (simp_all add: f64_round_def)
    ultimately show ?thesis by linarith
  next
    case 3
    with assms have x: "x < 0" by linarith
    have "round_pos (- y) \<le> round_pos (- x)"
      using 3 assms by (intro round_pos_mono) simp_all
    with 3 x show ?thesis by (simp add: f64_round_def)
  qed
qed

lemma round_pos_of_int:
  assumes "0 < i" "i < 2 ^ 53"
  shows "round_pos (of_int i) = of_int i"
proof -
  define k where "k = ilog2 (of_int i)"
  have i: "(0::rat) < of_int i" using assms by simp
  have "(2::rat) powi k \<le> of_int i" unfolding k_def by (rule ilog2_lower [OF i])
  moreover have "(of_int i :: rat) < of_int (2 ^ 53)" using assms(2) by (simp only: of_int_less_iff)
  then have "(of_int i :: rat) < 2 powi (52 + 1)" by simp
  ultimately have k: "k \<le> 52" by (rule powi2_le_less)
  define n where "n = nat (52 - k)"
  have e: "k - 52 = - int n" using k by (simp add: n_def)
  have "(of_int i :: rat) / 2 powi (k - 52) = of_int i * 2 ^ n"
    unfolding e by (simp only: power_int_minus power_int_of_nat) (simp add: field_simps)
  also have "\<dots> = of_int (i * 2 ^ n)" by simp
  finally have "rne (of_int i / 2 powi (k - 52)) = i * 2 ^ n" by (simp only: rne_of_int)
  then have "round_pos (of_int i) = of_int (i * 2 ^ n) * 2 powi (k - 52)"
    by (simp add: round_pos_unfold k_def)
  also have "\<dots> = of_int i"
    unfolding e by (simp only: power_int_minus power_int_of_nat) (simp add: field_simps)
  finally show ?thesis .
qed

lemma f64_round_of_int:
  assumes "\<bar>i\<bar> < 2 ^ 53"
  shows "f64_round (of_int i) = of_int i"
proof -
  consider "i = 0" | "0 < i" | "i < 0" by linarith
  then show ?thesis
  proof cases
    case 1 then show ?thesis by (simp add: f64_round_def)
  next
    case 2
    with assms round_pos_of_int [of i] show ?thesis by (simp add: f64_round_def)
  next
    case 3
    with assms round_pos_of_int [of "- i"] show ?thesis by (simp add: f64_round_def)
  qed
qed

section \<open>Properties of Duration.Hours\<close>

lemma sdiv_smod_nonneg:
  "0 \<le> d \<Longrightarrow> d sdiv Hour = d div Hour \<and> d smod Hour = d mod Hour"
  by (cases "d = 0") (simp_all add: signed_divide_int_def signed_modulo_int_def Hour_def Minute_def Second_def)

lemma sdiv_smod_neg:
  "d < 0 \<Longrightarrow> d sdiv Hour = - ((- d) div Hour) \<and> d smod Hour = - ((- d) mod Hour)"
  by (simp add: signed_divide_int_def signed_modulo_int_def Hour_def Minute_def Second_def)

lemma sdiv_Hour_mono: assumes "d1 \<le> d2" shows "d1 sdiv Hour \<le> d2 sdiv Hour"
proof -
  have H: "0 < Hour" by (simp add: Hour_def Minute_def Second_def)
  consider "0 \<le> d1" | "d1 < 0" "0 \<le> d2" | "d2 < 0" by linarith
  then show ?thesis
  proof cases
    case 1
    with assms have "0 \<le> d2" by linarith
    with 1 assms H show ?thesis by (simp add: sdiv_smod_nonneg zdiv_mono1)
  next
    case 2
    have "0 \<le> (- d1) div Hour" using 2(1) H by (simp add: pos_imp_zdiv_nonneg_iff)
    moreover have "0 \<le> d2 div Hour" using 2(2) H by (simp add: pos_imp_zdiv_nonneg_iff)
    ultimately show ?thesis using 2 by (simp add: sdiv_smod_nonneg sdiv_smod_neg)
  next
    case 3
    with assms have d1: "d1 < 0" by linarith
    have "(- d2) div Hour \<le> (- d1) div Hour" using assms H by (intro zdiv_mono1) simp_all
    with 3 d1 show ?thesis by (simp add: sdiv_smod_neg)
  qed
qed

lemma smod_Hour_bounds: "- Hour < d smod Hour \<and> d smod Hour < Hour"
proof (cases "0 \<le> d")
  case True
  then show ?thesis
    using pos_mod_bound [of Hour d] pos_mod_sign [of Hour d]
    by (simp add: sdiv_smod_nonneg) (simp add: Hour_def Minute_def Second_def)
next
  case False
  then show ?thesis
    using pos_mod_bound [of Hour "- d"] pos_mod_sign [of Hour "- d"]
    by (simp add: sdiv_smod_neg) (simp add: Hour_def Minute_def Second_def)
qed

lemma smod_Hour_sign:
  "(0 \<le> d \<longrightarrow> 0 \<le> d smod Hour) \<and> (d \<le> 0 \<longrightarrow> d smod Hour \<le> 0)"
proof -
  have H: "0 < Hour" by (simp add: Hour_def Minute_def Second_def)
  show ?thesis
    using pos_mod_sign [OF H, of d] pos_mod_sign [OF H, of "- d"]
    by (cases "d < 0"; cases "d = 0") (simp_all add: sdiv_smod_nonneg sdiv_smod_neg)
qed

lemma sdiv_Hour_small: assumes "is_int64 d" shows "\<bar>d sdiv Hour\<bar> < 2 ^ 53"
proof -
  have H: "0 < Hour" by (simp add: Hour_def Minute_def Second_def)
  have "\<bar>d sdiv Hour\<bar> = \<bar>d\<bar> div Hour"
    using H by (cases "0 \<le> d") (simp_all add: sdiv_smod_nonneg sdiv_smod_neg pos_imp_zdiv_nonneg_iff)
  also have "\<dots> \<le> 2 ^ 63 div Hour"
    using assms H by (intro zdiv_mono1) (auto simp: is_int64_def minDuration_def maxDuration_def)
  also have "\<dots> < 2 ^ 53" by (simp add: Hour_def Minute_def Second_def)
  finally show ?thesis .
qed

lemma smod_Hour_small: "\<bar>d smod Hour\<bar> < 2 ^ 53"
proof -
  have "Hour < 2 ^ 53" by (simp add: Hour_def Minute_def Second_def)
  with smod_Hour_bounds [of d] show ?thesis by linarith
qed

lemma f64_round_1: "f64_round 1 = 1"
  using f64_round_of_int [of 1] by simp

lemma f64_round_m1: "f64_round (- 1) = - 1"
  using f64_round_of_int [of "- 1"] by simp

lemma f64_round_0: "f64_round 0 = 0"
  by (simp add: f64_round_def)

lemma hours_frac_bounds: "- 1 \<le> hours_frac d \<and> hours_frac d \<le> 1"
proof -
  have n: "f64_of_int64 (d smod Hour) = of_int (d smod Hour)"
    unfolding f64_of_int64_def by (rule f64_round_of_int [OF smod_Hour_small])
  have "(of_int (- Hour) :: rat) < of_int (d smod Hour)" "(of_int (d smod Hour) :: rat) < of_int Hour"
    using smod_Hour_bounds [of d] by (simp_all only: of_int_less_iff)
  then have "- 1 \<le> (of_int (d smod Hour) :: rat) / (60 * 60 * 1000000000)"
    "(of_int (d smod Hour) :: rat) / (60 * 60 * 1000000000) \<le> 1"
    by (simp_all add: Hour_def Minute_def Second_def)
  then have "f64_round (- 1) \<le> hours_frac d" "hours_frac d \<le> f64_round 1"
    unfolding hours_frac_def f64_div_def n by (simp_all only: f64_round_mono)
  then show ?thesis by (simp only: f64_round_1 f64_round_m1)
qed

lemma hours_frac_sign:
  "(0 \<le> d \<longrightarrow> 0 \<le> hours_frac d) \<and> (d \<le> 0 \<longrightarrow> hours_frac d \<le> 0)"
proof -
  have n: "f64_of_int64 (d smod Hour) = of_int (d smod Hour)"
    unfolding f64_of_int64_def by (rule f64_round_of_int [OF smod_Hour_small])
  have a: "0 \<le> hours_frac d" if "0 \<le> d"
  proof -
    from that smod_Hour_sign [of d] have "0 \<le> d smod Hour" by simp
    then have "0 \<le> (of_int (d smod Hour) :: rat) / (60 * 60 * 1000000000)" by simp
    then have "f64_round 0 \<le> hours_frac d"
      unfolding hours_frac_def f64_div_def n by (rule f64_round_mono)
    then show ?thesis by (simp only: f64_round_0)
  qed
  have b: "hours_frac d \<le> 0" if "d \<le> 0"
  proof -
    from that smod_Hour_sign [of d] have "d smod Hour \<le> 0" by simp
    then have "(of_int (d smod Hour) :: rat) / (60 * 60 * 1000000000) \<le> 0"
      by (simp add: divide_le_0_iff)
    then have "hours_frac d \<le> f64_round 0"
      unfolding hours_frac_def f64_div_def n by (rule f64_round_mono)
    then show ?thesis by (simp only: f64_round_0)
  qed
  from a b show ?thesis by blast
qed

lemma hours_frac_mono_same:
  assumes "d1 \<le> d2" "d1 sdiv Hour = d2 sdiv Hour"
  shows "hours_frac d1 \<le> hours_frac d2"
proof -
  have "d1 smod Hour = d1 - d1 sdiv Hour * Hour" "d2 smod Hour = d2 - d2 sdiv Hour * Hour"
    by (simp_all add: minus_sdiv_mult_eq_smod)
  with assms have "d1 smod Hour \<le> d2 smod Hour" by simp
  then have "(of_int (d1 smod Hour) :: rat) \<le> of_int (d2 smod Hour)" by (simp only: of_int_le_iff)
  then have "(of_int (d1 smod Hour) :: rat) / (60 * 60 * 1000000000)
      \<le> of_int (d2 smod Hour) / (60 * 60 * 1000000000)"
    by (rule divide_right_mono) simp
  then have "f64_round (of_int (d1 smod Hour) / (60 * 60 * 1000000000))
      \<le> f64_round (of_int (d2 smod Hour) / (60 * 60 * 1000000000))"
    by (rule f64_round_mono)
  then show ?thesis
    by (simp only: hours_frac_def f64_div_def f64_of_int64_def f64_round_of_int [OF smod_Hour_small])
qed

lemma Hours_unfold:
  "is_int64 d \<Longrightarrow> Hours d = f64_round (of_int (d sdiv Hour) + hours_frac d)"
  by (simp add: Hours_def hours_frac_def Let_def f64_add_def f64_of_int64_def
      f64_round_of_int [OF sdiv_Hour_small])

lemma Hours_mono:
  assumes "is_int64 d1" "is_int64 d2" "d1 \<le> d2"
  shows "Hours d1 \<le> Hours d2"
proof -
  have "(of_int (d1 sdiv Hour) :: rat) + hours_frac d1 \<le> of_int (d2 sdiv Hour) + hours_frac d2"
  proof (cases "d1 sdiv Hour = d2 sdiv Hour")
    case True
    with hours_frac_mono_same [OF assms(3)] show ?thesis by simp
  next
    case False
    with sdiv_Hour_mono [OF assms(3)] have "d1 sdiv Hour + 1 \<le> d2 sdiv Hour" by linarith
    then have "(of_int (d1 sdiv Hour + 1) :: rat) \<le> of_int (d2 sdiv Hour)"
      by (simp only: of_int_le_iff)
    then have h: "(of_int (d1 sdiv Hour) :: rat) + 1 \<le> of_int (d2 sdiv Hour)" by simp
    have "hours_frac d1 \<le> hours_frac d2 + 1"
    proof (cases "0 \<le> d2")
      case True
      with hours_frac_sign [of d2] hours_frac_bounds [of d1] show ?thesis by linarith
    next
      case False
      with assms(3) have "d1 \<le> 0" by linarith
      with hours_frac_sign [of d1] hours_frac_bounds [of d2] show ?thesis by linarith
    qed
    with h show ?thesis by linarith
  qed
  then show ?thesis
    by (simp only: Hours_unfold [OF assms(1)] Hours_unfold [OF assms(2)] f64_round_mono)
qed

section \<open>Evaluating float64 expressions\<close>

lemma f64_round_evalI:
  assumes "2 powi k \<le> x" "x < 2 powi (k + 1)" "\<bar>x / 2 powi (k - 52) - of_int m\<bar> < 1/2"
  shows "f64_round x = of_int m * 2 powi (k - 52)"
proof -
  have "(0::rat) < 2 powi k" by simp
  with assms(1) have "0 < x" by linarith
  then show ?thesis using round_pos_evalI [OF assms] by (simp add: f64_round_def)
qed

lemma Hours_evalI:
  assumes "d sdiv Hour = h" "d smod Hour = n" "\<bar>h\<bar> < 2 ^ 53"
  shows "Hours d = f64_round (of_int h + f64_round (of_int n / (60 * 60 * 1000000000)))"
proof -
  have "\<bar>n\<bar> < 2 ^ 53" using smod_Hour_small [of d] assms(2) by simp
  then show ?thesis
    using assms
    by (simp add: Hours_def Let_def f64_add_def f64_div_def f64_of_int64_def f64_round_of_int)
qed

lemma sdiv_smod_Hour_evalI:
  assumes "0 \<le> n" "n < Hour" "0 \<le> h" "d = h * Hour + n"
  shows "d sdiv Hour = h" "d smod Hour = n"
proof -
  have H: "0 < Hour" by (simp add: Hour_def Minute_def Second_def)
  have d: "0 \<le> d" using assms H by simp
  have "d div Hour = h" using assms H by (simp add: div_pos_pos_trivial)
  moreover have "d mod Hour = n" using assms H by (simp add: mod_pos_pos_trivial)
  ultimately show "d sdiv Hour = h" "d smod Hour = n"
    using sdiv_smod_nonneg [OF d] by simp_all
qed

lemma Hours_whole:
  assumes "0 \<le> h" "h < 2 ^ 53"
  shows "Hours (h * Hour) = of_int h"
proof -
  have H: "0 < Hour" by (simp add: Hour_def Minute_def Second_def)
  have "(h * Hour) sdiv Hour = h" "(h * Hour) smod Hour = 0"
    using sdiv_smod_Hour_evalI [of 0 h "h * Hour"] assms H by simp_all
  then have "Hours (h * Hour) = f64_round (of_int h + f64_round (of_int 0 / (60 * 60 * 1000000000)))"
    using assms by (intro Hours_evalI) simp_all
  then show ?thesis using assms by (simp add: f64_round_0 f64_round_of_int)
qed

lemma days_whole:
  assumes "0 \<le> n" "n < 2 ^ 48"
  shows "f64_div (Hours (n * 24 * Hour)) 24 = of_int n"
proof -
  have "Hours ((n * 24) * Hour) = of_int (n * 24)"
    using assms by (intro Hours_whole) simp_all
  moreover have "\<bar>n\<bar> < 2 ^ 53" using assms by simp
  ultimately show ?thesis by (simp add: f64_div_def f64_round_of_int)
qed

lemma Hours_90d_1ns:
  "Hours (90 * 24 * Hour + 1) = of_int 4749890231992321 * 2 powi (11 - 52)"
proof -
  have "(90 * 24 * Hour + 1) sdiv Hour = 2160" "(90 * 24 * Hour + 1) smod Hour = 1"
    using sdiv_smod_Hour_evalI [of 1 2160 "90 * 24 * Hour + 1"]
    by (simp_all add: Hour_def Minute_def Second_def)
  then have e1: "Hours (90 * 24 * Hour + 1)
      = f64_round (of_int 2160 + f64_round (of_int 1 / (60 * 60 * 1000000000)))"
    by (intro Hours_evalI) simp_all
  have e2: "f64_round (of_int 1 / (60 * 60 * 1000000000))
      = of_int 5501955730157246 * 2 powi (- 42 - 52)"
    by (rule f64_round_evalI) simp_all
  have e3: "f64_round (of_int 2160 + of_int 5501955730157246 * 2 powi (- 42 - 52))
      = of_int 4749890231992321 * 2 powi (11 - 52)"
    by (rule f64_round_evalI) simp_all
  show ?thesis by (simp only: e1 e2 e3)
qed

lemma Hours_90d_2ns:
  "Hours (90 * 24 * Hour + 2) = of_int 4749890231992321 * 2 powi (11 - 52)"
proof -
  have "(90 * 24 * Hour + 2) sdiv Hour = 2160" "(90 * 24 * Hour + 2) smod Hour = 2"
    using sdiv_smod_Hour_evalI [of 2 2160 "90 * 24 * Hour + 2"]
    by (simp_all add: Hour_def Minute_def Second_def)
  then have e1: "Hours (90 * 24 * Hour + 2)
      = f64_round (of_int 2160 + f64_round (of_int 2 / (60 * 60 * 1000000000)))"
    by (intro Hours_evalI) simp_all
  have e2: "f64_round (of_int 2 / (60 * 60 * 1000000000))
      = of_int 5501955730157246 * 2 powi (- 41 - 52)"
    by (rule f64_round_evalI) simp_all
  have e3: "f64_round (of_int 2160 + of_int 5501955730157246 * 2 powi (- 41 - 52))
      = of_int 4749890231992321 * 2 powi (11 - 52)"
    by (rule f64_round_evalI) simp_all
  show ?thesis by (simp only: e1 e2 e3)
qed

lemma days_90d: "f64_div (Hours (90 * 24 * Hour)) 24 = 90"
  using days_whole [of 90] by simp

lemma days_90d_1ns: "f64_div (Hours (90 * 24 * Hour + 1)) 24 = 90 + 1 / 2 ^ 46"
proof -
  have "f64_round (of_int 4749890231992321 * 2 powi (11 - 52) / 24)
      = of_int 6333186975989761 * 2 powi (6 - 52)"
    by (rule f64_round_evalI) simp_all
  then have "f64_div (Hours (90 * 24 * Hour + 1)) 24 = of_int 6333186975989761 * 2 powi (6 - 52)"
    by (simp only: f64_div_def Hours_90d_1ns)
  also have "\<dots> = 90 + 1 / 2 ^ 46" by simp
  finally show ?thesis .
qed

lemma days_90d_2ns: "f64_div (Hours (90 * 24 * Hour + 2)) 24 = 90 + 1 / 2 ^ 46"
  using days_90d_1ns by (simp only: f64_div_def Hours_90d_1ns Hours_90d_2ns)

lemma days_mono:
  assumes "is_int64 d1" "is_int64 d2" "d1 \<le> d2"
  shows "f64_div (Hours d1) 24 \<le> f64_div (Hours d2) 24"
proof -
  have "Hours d1 / 24 \<le> Hours d2 / 24"
    using Hours_mono [OF assms] by (rule divide_right_mono) simp
  then show ?thesis unfolding f64_div_def by (rule f64_round_mono)
qed

lemma is_int64_time_Sub: "is_int64 (time_Sub t u)"
  by (simp add: time_Sub_def is_int64_def Let_def minDuration_def maxDuration_def)

lemma time_Sub_exact: "is_int64 (t - u) \<Longrightarrow> time_Sub t u = t - u"
  by (auto simp: time_Sub_def is_int64_def Let_def)

lemma less_time_Sub_imp: "is_int64 d \<Longrightarrow> d < time_Sub t u \<Longrightarrow> d < t - u"
  by (auto simp: time_Sub_def is_int64_def Let_def minDuration_def maxDuration_def split: if_splits)

lemma less_imp_le_time_Sub: "is_int64 (d + 1) \<Longrightarrow> d < t - u \<Longrightarrow> d + 1 \<le> time_Sub t u"
  by (auto simp: time_Sub_def is_int64_def Let_def minDuration_def maxDuration_def split: if_splits)

lemma time_Sub_le: "is_int64 d \<Longrightarrow> t - u \<le> d \<Longrightarrow> time_Sub t u \<le> d"
  by (auto simp: time_Sub_def is_int64_def Let_def minDuration_def maxDuration_def split: if_splits)

section \<open>CheckIfStale\<close>

lemma CheckIfStale_parsed:
  assumes "map_of branch ''target'' = Some (JObject target)"
    and "map_of target ''date'' = Some (JString str)"
    and "time_Parse env str = Some T"
    and "time_Now env (world s) = (now, w')"
  shows "CheckIfStale env branch threshold s =
    (if f64_div (Hours threshold) 24 < f64_div (Hours (time_Sub now T)) 24
     then (Inr (True, int64_mul (int64_of_f64 (f64_div (Hours (time_Sub now T)) 24)) Hour),
           s\<lparr>world := w'\<rparr>)
     else (Inr (False, 0), s\<lparr>world := w'\<rparr>))"
  using assms by (simp add: CheckIfStale_def time_Since_def Let_def)

lemma CheckIfStale_unparsed:
  assumes "map_of branch ''target'' = Some (JObject target)"
    and "map_of target ''date'' = Some (JString str)"
    and "time_Parse env str = None"
  shows "CheckIfStale env branch threshold s = (Inr (False, 0), s)"
  using assms by (simp add: CheckIfStale_def)

lemma stale_imp_older:
  assumes "is_int64 threshold"
    and "f64_div (Hours threshold) 24 < f64_div (Hours (time_Sub now T)) 24"
  shows "threshold < now - T"
proof (rule ccontr)
  assume "\<not> threshold < now - T"
  then have "time_Sub now T \<le> threshold" using assms(1) by (intro time_Sub_le) simp_all
  then have "f64_div (Hours (time_Sub now T)) 24 \<le> f64_div (Hours threshold) 24"
    using assms(1) is_int64_time_Sub by (intro days_mono) simp_all
  with assms(2) show False by simp
qed

lemma older_imp_stale:
  assumes "is_int64 threshold" "threshold < maxDuration"
    and "f64_div (Hours threshold) 24 < f64_div (Hours (threshold + 1)) 24"
    and "threshold < now - T"
  shows "f64_div (Hours threshold) 24 < f64_div (Hours (time_Sub now T)) 24"
proof -
  have i: "is_int64 (threshold + 1)" using assms(1,2) by (simp add: is_int64_def)
  then have "threshold + 1 \<le> time_Sub now T" using assms(4) by (rule less_imp_le_time_Sub)
  then have "f64_div (Hours (threshold + 1)) 24 \<le> f64_div (Hours (time_Sub now T)) 24"
    using i is_int64_time_Sub by (intro days_mono) simp_all
  with assms(3) show ?thesis by simp
qed


lemma le_time_Sub: "is_int64 d \<Longrightarrow> d < t - u \<Longrightarrow> d \<le> time_Sub t u"
  by (auto simp: time_Sub_def is_int64_def Let_def minDuration_def maxDuration_def split: if_splits)

lemma stale_iff_older_and_distinct:
  assumes "is_int64 threshold"
  shows "(f64_div (Hours threshold) 24 < f64_div (Hours (time_Sub now T)) 24)
    = (threshold < now - T \<and>
       f64_div (Hours threshold) 24 \<noteq> f64_div (Hours (time_Sub now T)) 24)"
proof
  assume s: "f64_div (Hours threshold) 24 < f64_div (Hours (time_Sub now T)) 24"
  have "threshold < now - T" using assms s by (rule stale_imp_older)
  with s show "threshold < now - T \<and>
      f64_div (Hours threshold) 24 \<noteq> f64_div (Hours (time_Sub now T)) 24"
    by simp
next
  assume o: "threshold < now - T \<and>
      f64_div (Hours threshold) 24 \<noteq> f64_div (Hours (time_Sub now T)) 24"
  then have "threshold \<le> time_Sub now T" using assms by (intro le_time_Sub) simp_all
  then have "f64_div (Hours threshold) 24 \<le> f64_div (Hours (time_Sub now T)) 24"
    using assms is_int64_time_Sub by (intro days_mono) simp_all
  with o show "f64_div (Hours threshold) 24 < f64_div (Hours (time_Sub now T)) 24"
    by simp
qed

lemma ex_time_Sub_days:
  assumes "0 \<le> n" "n \<le> 100000"
  shows "time_Sub (ex_commit_time + n * 24 * Hour) ex_commit_time = n * 24 * Hour"
proof -
  have "0 \<le> n * 24 * Hour" "n * 24 * Hour \<le> 100000 * 24 * Hour"
    using assms by (simp_all add: Hour_def Minute_def Second_def)
  then show ?thesis
    by (simp add: time_Sub_def Let_def Hour_def Minute_def Second_def minDuration_def maxDuration_def)
qed

lemma is_int64_main_threshold: "is_int64 main_threshold" "main_threshold < maxDuration"
  by (simp_all add: is_int64_def main_threshold_def Hour_def Minute_def Second_def
      minDuration_def maxDuration_def)

lemma main_threshold_days: "f64_div (Hours main_threshold) 24 = 90"
  unfolding main_threshold_def using days_whole [of 90] by simp

lemma main_threshold_separated:
  "f64_div (Hours main_threshold) 24 < f64_div (Hours (main_threshold + 1)) 24"
proof -
  have "main_threshold + 1 = 90 * 24 * Hour + 1" by (simp add: main_threshold_def)
  then show ?thesis by (simp only: main_threshold_days days_90d_1ns) simp
qed

lemma ex_branch_target:
  "map_of (ex_branch name date) ''target'' = Some (JObject [(''hash'', JString ''0f3c2a''), (''date'', JString date)])"
  "map_of [(''hash'', JString ''0f3c2a''), (''date'', JString date)] ''date'' = Some (JString date)"
  "map_of (ex_branch name date) ''name'' = Some (JString name)"
  by (simp_all add: ex_branch_def)

lemma ex_env_simps:
  "time_Parse (ex_env now table) ''2024-01-01T00:00:00Z'' = Some ex_commit_time"
  "time_Now (ex_env now table) (world s) = (now, ())"
  "(s :: unit state)\<lparr>world := ()\<rparr> = s"
  by (simp_all add: ex_env_def ex_parse_def ex_clock_def)

lemma int64_mul_small: "\<bar>a * b\<bar> < 2 ^ 63 \<Longrightarrow> int64_mul a b = a * b"
  by (simp add: int64_mul_def wrap64_def abs_less_iff)

lemma ex_CheckIfStale:
  "CheckIfStale (ex_env now table) (ex_branch name ''2024-01-01T00:00:00Z'') threshold s =
    (if f64_div (Hours threshold) 24 < f64_div (Hours (time_Sub now ex_commit_time)) 24
     then (Inr (True, int64_mul (int64_of_f64 (f64_div (Hours (time_Sub now ex_commit_time)) 24)) Hour),
           s)
     else (Inr (False, 0), s))"
  using CheckIfStale_parsed [OF ex_branch_target(1,2) ex_env_simps(1,2)]
  by (simp only: ex_env_simps(3))

lemma ex_stale_200:
  "CheckIfStale (ex_env (ex_commit_time + 200 * 24 * Hour) table)
     (ex_branch name ''2024-01-01T00:00:00Z'') main_threshold s
   = (Inr (True, 200 * Hour), s)"
proof -
  have t: "time_Sub (ex_commit_time + 200 * 24 * Hour) ex_commit_time = 200 * 24 * Hour"
    by (simp add: time_Sub_def Let_def Hour_def Minute_def Second_def minDuration_def maxDuration_def)
  have d: "f64_div (Hours (200 * 24 * Hour)) 24 = 200" using days_whole [of 200] by simp
  have m: "int64_mul (int64_of_f64 200) Hour = 200 * Hour"
    by (simp add: int64_of_f64_def int64_mul_small Hour_def Minute_def Second_def)
  show ?thesis
    by (simp only: ex_CheckIfStale t d m main_threshold_days) simp
qed

subsection \<open>The staleness test\<close>

text \<open>
  Claim C2. For a branch whose commit timestamp parses to \<open>T\<close>, a threshold \<open>D\<close>
  and the current time \<open>now\<close>, the claim is that \<open>CheckIfStale\<close> answers stale exactly
  when \<open>now - T > D\<close>. The code compares the two durations as float64 day counts
  (\<open>Hours()/24\<close>), so what holds for every threshold is: the branch is stale exactly
  when \<open>now - T > D\<close> and the day count of the elapsed time differs from the day count
  of \<open>D\<close>. Hence a branch reported stale is strictly older than the threshold, and a
  branch whose age equals the threshold is not stale. Whenever the day count of \<open>D\<close>
  plus one nanosecond exceeds that of \<open>D\<close>, as it does for the threshold of \<open>main\<close>,
  the branch is stale exactly when \<open>now - T > D\<close>.
\<close>

theorem CheckIfStale_stale_iff:
  assumes "map_of branch ''target'' = Some (JObject target)"
    and "map_of target ''date'' = Some (JString str)"
    and "time_Parse env str = Some T"
    and "time_Now env (world s) = (now, w')"
    and "is_int64 threshold"
  shows "\<exists>isStale age.
      CheckIfStale env branch threshold s = (Inr (isStale, age), s\<lparr>world := w'\<rparr>) \<and>
      isStale = (threshold < now - T \<and>
                 f64_div (Hours threshold) 24 \<noteq> f64_div (Hours (time_Sub now T)) 24) \<and>
      (isStale \<longrightarrow> threshold < now - T) \<and>
      (threshold < maxDuration \<and>
       f64_div (Hours threshold) 24 < f64_div (Hours (threshold + 1)) 24 \<longrightarrow>
         isStale = (threshold < now - T))"
proof (cases "f64_div (Hours threshold) 24 < f64_div (Hours (time_Sub now T)) 24")
  case True
  then have "CheckIfStale env branch threshold s =
      (Inr (True, int64_mul (int64_of_f64 (f64_div (Hours (time_Sub now T)) 24)) Hour),
       s\<lparr>world := w'\<rparr>)"
    using CheckIfStale_parsed [OF assms(1-4)] by simp
  moreover have "threshold < now - T \<and>
      f64_div (Hours threshold) 24 \<noteq> f64_div (Hours (time_Sub now T)) 24"
    using stale_iff_older_and_distinct [OF assms(5), of now T] True by simp
  ultimately show ?thesis by blast
next
  case False
  then have "CheckIfStale env branch threshold s = (Inr (False, 0), s\<lparr>world := w'\<rparr>)"
    using CheckIfStale_parsed [OF assms(1-4)] by simp
  moreover have "\<not> (threshold < now - T \<and>
      f64_div (Hours threshold) 24 \<noteq> f64_div (Hours (time_Sub now T)) 24)"
    using stale_iff_older_and_distinct [OF assms(5), of now T] False by simp
  moreover have "\<not> threshold < now - T"
    if "threshold < maxDuration"
      "f64_div (Hours threshold) 24 < f64_div (Hours (threshold + 1)) 24"
    using older_imp_stale [OF assms(5) that] False by blast
  ultimately show ?thesis by blast
qed

text \<open>
  Two instances: the threshold of \<open>main\<close> with a commit that is 200 days old, and a
  threshold of 180 days, whose day count is the same as that of 180 days and one
  nanosecond, with a commit that is 3650 days old. Both branches are stale.
\<close>

theorem CheckIfStale_stale_iff_witness:
  "is_int64 main_threshold \<and> main_threshold < maxDuration \<and>
   f64_div (Hours main_threshold) 24 < f64_div (Hours (main_threshold + 1)) 24 \<and>
   CheckIfStale (ex_env (ex_commit_time + 200 * 24 * Hour) [])
     (ex_branch ''feature-x'' ''2024-01-01T00:00:00Z'') main_threshold ex_state
     = (Inr (True, 200 * Hour), ex_state) \<and>
   main_threshold < (ex_commit_time + 200 * 24 * Hour) - ex_commit_time \<and>
   is_int64 (180 * 24 * Hour) \<and>
   180 * 24 * Hour < (ex_commit_time + 3650 * 24 * Hour) - ex_commit_time \<and>
   f64_div (Hours (180 * 24 * Hour)) 24
     \<noteq> f64_div (Hours (time_Sub (ex_commit_time + 3650 * 24 * Hour) ex_commit_time)) 24 \<and>
   (\<exists>age. CheckIfStale (ex_env (ex_commit_time + 3650 * 24 * Hour) [])
       (ex_branch ''feature-x'' ''2024-01-01T00:00:00Z'') (180 * 24 * Hour) ex_state
     = (Inr (True, age), ex_state))"
proof -
  have h1: "map_of (ex_branch ''feature-x'' ''2024-01-01T00:00:00Z'') ''target''
      = Some (JObject [(''hash'', JString ''0f3c2a''), (''date'', JString ''2024-01-01T00:00:00Z'')])"
    by (rule ex_branch_target)
  have h2: "map_of [(''hash'', JString ''0f3c2a''), (''date'', JString ''2024-01-01T00:00:00Z'')] ''date''
      = Some (JString ''2024-01-01T00:00:00Z'')"
    by (rule ex_branch_target)
  have h3: "time_Parse (ex_env (ex_commit_time + 200 * 24 * Hour) []) ''2024-01-01T00:00:00Z''
      = Some ex_commit_time"
    by (rule ex_env_simps)
  have h4: "time_Now (ex_env (ex_commit_time + 200 * 24 * Hour) []) (world ex_state)
      = (ex_commit_time + 200 * 24 * Hour, ())"
    by (rule ex_env_simps)
  from CheckIfStale_stale_iff [OF h1 h2 h3 h4 is_int64_main_threshold(1)]
    ex_stale_200 [where table = "[]" and name = "''feature-x''" and s = ex_state]
  have a: "main_threshold < (ex_commit_time + 200 * 24 * Hour) - ex_commit_time"
    by auto
  have k3: "time_Parse (ex_env (ex_commit_time + 3650 * 24 * Hour) []) ''2024-01-01T00:00:00Z''
      = Some ex_commit_time"
    by (rule ex_env_simps)
  have k4: "time_Now (ex_env (ex_commit_time + 3650 * 24 * Hour) []) (world ex_state)
      = (ex_commit_time + 3650 * 24 * Hour, ())"
    by (rule ex_env_simps)
  have k5: "is_int64 (180 * 24 * Hour)"
    by (simp add: is_int64_def Hour_def Minute_def Second_def minDuration_def maxDuration_def)
  have t: "time_Sub (ex_commit_time + 3650 * 24 * Hour) ex_commit_time = 3650 * 24 * Hour"
    using ex_time_Sub_days [of 3650] by simp
  have d1: "f64_div (Hours (180 * 24 * Hour)) 24 = 180" using days_whole [of 180] by simp
  have d2: "f64_div (Hours (3650 * 24 * Hour)) 24 = 3650" using days_whole [of 3650] by simp
  have b: "180 * 24 * Hour < (ex_commit_time + 3650 * 24 * Hour) - ex_commit_time"
    by (simp add: Hour_def Minute_def Second_def)
  have c: "f64_div (Hours (180 * 24 * Hour)) 24
     \<noteq> f64_div (Hours (time_Sub (ex_commit_time + 3650 * 24 * Hour) ex_commit_time)) 24"
    unfolding t d1 d2 by simp
  from CheckIfStale_stale_iff [OF h1 h2 k3 k4 k5] b c
  have e: "\<exists>age. CheckIfStale (ex_env (ex_commit_time + 3650 * 24 * Hour) [])
       (ex_branch ''feature-x'' ''2024-01-01T00:00:00Z'') (180 * 24 * Hour) ex_state
     = (Inr (True, age), ex_state)"
    by (auto simp: ex_env_simps(3))
  from a b c e k5 ex_stale_200 [where table = "[]" and name = "''feature-x''" and s = ex_state]
    is_int64_main_threshold main_threshold_separated
  show ?thesis by blast
qed

text \<open>
  The claim as stated fails: with a threshold of 90 days and one nanosecond, a commit
  that is 90 days and two nanoseconds old is not stale, since both durations have the
  same float64 day count.
\<close>

theorem CheckIfStale_strict_threshold_counterexample:
  "CheckIfStale (ex_env (ex_commit_time + (90 * 24 * Hour + 2)) [])
     (ex_branch ''feature-x'' ''2024-01-01T00:00:00Z'') (90 * 24 * Hour + 1) ex_state
     = (Inr (False, 0), ex_state) \<and>
   90 * 24 * Hour + 1 < (ex_commit_time + (90 * 24 * Hour + 2)) - ex_commit_time"
proof -
  have t: "time_Sub (ex_commit_time + (90 * 24 * Hour + 2)) ex_commit_time = 90 * 24 * Hour + 2"
    by (simp add: time_Sub_def Let_def Hour_def Minute_def Second_def minDuration_def maxDuration_def)
  have "CheckIfStale (ex_env (ex_commit_time + (90 * 24 * Hour + 2)) [])
     (ex_branch ''feature-x'' ''2024-01-01T00:00:00Z'') (90 * 24 * Hour + 1) ex_state
     = (Inr (False, 0), ex_state)"
    by (simp only: ex_CheckIfStale t days_90d_1ns days_90d_2ns) simp
  then show ?thesis by simp
qed

subsection \<open>The returned age\<close>

lemma sdiv_Hour_bound: assumes "is_int64 d" shows "\<bar>d sdiv Hour\<bar> \<le> 2562047"
proof -
  have H: "0 < Hour" by (simp add: Hour_def Minute_def Second_def)
  have "\<bar>d sdiv Hour\<bar> = \<bar>d\<bar> div Hour"
    using H by (cases "0 \<le> d") (simp_all add: sdiv_smod_nonneg sdiv_smod_neg pos_imp_zdiv_nonneg_iff)
  also have "\<dots> \<le> 2 ^ 63 div Hour"
    using assms H by (intro zdiv_mono1) (auto simp: is_int64_def minDuration_def maxDuration_def)
  also have "\<dots> = 2562047" by (simp add: Hour_def Minute_def Second_def)
  finally show ?thesis .
qed

lemma Hours_bounds: assumes "is_int64 d" shows "- 2562048 \<le> Hours d" "Hours d \<le> 2562048"
proof -
  have "(of_int (- 2562047) :: rat) \<le> of_int (d sdiv Hour)" "(of_int (d sdiv Hour) :: rat) \<le> of_int 2562047"
    using sdiv_Hour_bound [OF assms] by (simp_all only: of_int_le_iff abs_le_iff) linarith+
  with hours_frac_bounds [of d]
  have "- 2562048 \<le> of_int (d sdiv Hour) + hours_frac d" "of_int (d sdiv Hour) + hours_frac d \<le> 2562048"
    by simp_all
  then have "f64_round (- 2562048) \<le> Hours d" "Hours d \<le> f64_round 2562048"
    unfolding Hours_unfold [OF assms] by (simp_all only: f64_round_mono)
  moreover have "f64_round 2562048 = 2562048" using f64_round_of_int [of 2562048] by simp
  moreover have "f64_round (- 2562048) = - 2562048" using f64_round_of_int [of "- 2562048"] by simp
  ultimately show "- 2562048 \<le> Hours d" "Hours d \<le> 2562048" by simp_all
qed

lemma days_bounds:
  assumes "is_int64 d"
  shows "- 106752 \<le> f64_div (Hours d) 24" "f64_div (Hours d) 24 \<le> 106752"
proof -
  have "- 106752 \<le> Hours d / 24" "Hours d / 24 \<le> 106752"
    using Hours_bounds [OF assms] by simp_all
  then have "f64_round (- 106752) \<le> f64_div (Hours d) 24" "f64_div (Hours d) 24 \<le> f64_round 106752"
    unfolding f64_div_def by (simp_all only: f64_round_mono)
  moreover have "f64_round 106752 = 106752" using f64_round_of_int [of 106752] by simp
  moreover have "f64_round (- 106752) = - 106752" using f64_round_of_int [of "- 106752"] by simp
  ultimately show "- 106752 \<le> f64_div (Hours d) 24" "f64_div (Hours d) 24 \<le> 106752" by simp_all
qed

lemma int64_of_f64_bounds:
  assumes "- 106752 \<le> x" "x \<le> 106752"
  shows "- 106752 \<le> int64_of_f64 x" "int64_of_f64 x \<le> 106752"
proof -
  have "\<lfloor>x\<rfloor> \<le> 106752" using assms(2) by (simp add: floor_le_iff)
  moreover have "- 106752 \<le> \<lceil>x\<rceil>" using assms(1) by (simp add: le_ceiling_iff)
  moreover have "0 \<le> x \<Longrightarrow> 0 \<le> \<lfloor>x\<rfloor>" by simp
  moreover have "\<not> 0 \<le> x \<Longrightarrow> \<lceil>x\<rceil> \<le> 0" by (simp add: ceiling_le_iff)
  ultimately show "- 106752 \<le> int64_of_f64 x" "int64_of_f64 x \<le> 106752"
    by (auto simp: int64_of_f64_def)
qed

lemma whole_days_times_Hour:
  assumes "is_int64 d"
  shows "int64_mul (int64_of_f64 (f64_div (Hours d) 24)) Hour
    = int64_of_f64 (f64_div (Hours d) 24) * Hour"
proof -
  define n where "n = int64_of_f64 (f64_div (Hours d) 24)"
  have "- 106752 \<le> n" "n \<le> 106752"
    unfolding n_def using int64_of_f64_bounds [OF days_bounds [OF assms]] by simp_all
  then have "\<bar>n * Hour\<bar> < 2 ^ 63" by (simp add: Hour_def Minute_def Second_def abs_less_iff)
  then show ?thesis unfolding n_def [symmetric] by (rule int64_mul_small)
qed

lemma process_branches_single:
  "process_branches env repoSlug threshold del [branch] s =
     (case CheckIfStale env branch threshold s of
        (Inl p, s1) \<Rightarrow> (Some p, s1)
      | (Inr (isStale, nonInteractDays), s1) \<Rightarrow>
          (None,
           if isStale
           then (let s2 = emit (Printed (StaleBranchFound (map_of branch ''name'') repoSlug
                                    (f64_div (Hours nonInteractDays) 24))) s1
                 in if del then emit (Printed Blaaa) s2 else s2)
           else s1))"
  by (simp split: prod.splits sum.splits)

lemma printed_append: "printed (xs @ ys) = printed xs @ printed ys"
  by (induction xs rule: printed.induct) simp_all

lemma http_calls_append: "http_calls (xs @ ys) = http_calls xs @ http_calls ys"
  by (induction xs rule: http_calls.induct) simp_all

lemma delete_calls_append: "delete_calls (xs @ ys) = delete_calls xs @ delete_calls ys"
  by (induction xs rule: delete_calls.induct) simp_all

lemma CheckIfStale_stale_age:
  assumes "map_of branch ''target'' = Some (JObject target)"
    and "map_of target ''date'' = Some (JString str)"
    and "time_Parse env str = Some T"
    and "time_Now env (world s) = (now, w')"
    and "f64_div (Hours threshold) 24 < f64_div (Hours (time_Sub now T)) 24"
  shows "CheckIfStale env branch threshold s =
    (Inr (True, int64_of_f64 (f64_div (Hours (time_Sub now T)) 24) * Hour), s\<lparr>world := w'\<rparr>)"
  using CheckIfStale_parsed [OF assms(1-4)] assms(5)
  by (simp add: whole_days_times_Hour [OF is_int64_time_Sub])

lemma displayed_days_200h:
  "8 < f64_div (Hours (200 * Hour)) 24" "f64_div (Hours (200 * Hour)) 24 < 9"
proof -
  have h: "Hours (200 * Hour) = of_int 200" by (rule Hours_whole) simp_all
  have "f64_round (of_int 200 / 24) = of_int 4691249611844267 * 2 powi (3 - 52)"
    by (rule f64_round_evalI) simp_all
  then have "f64_div (Hours (200 * Hour)) 24 = of_int 4691249611844267 * 2 powi (3 - 52)"
    by (simp only: f64_div_def h)
  then show "8 < f64_div (Hours (200 * Hour)) 24" "f64_div (Hours (200 * Hour)) 24 < 9"
    by simp_all
qed

text \<open>
  Claim C4. The claim is that the age returned for a branch with a parseable
  timestamp equals \<open>now - T\<close>, and that only the displayed value is reduced to days
  (the hours of the age divided by 24). The code computes the float64 day count
  \<open>daysSinceCommit\<close> and returns it, truncated, multiplied by \<open>time.Hour\<close>: a count of
  days is returned as that many hours. For a commit that is exactly 200 days old the
  returned age is 200 hours, not 200 days, and the value that \<open>ListStaleBranches\<close>
  prints as the number of days, \<open>Hours()/24\<close> of that age, lies between 8 and 9.
\<close>

theorem CheckIfStale_age_of_200_days:
  "CheckIfStale (ex_env (ex_commit_time + 200 * 24 * Hour) [])
     (ex_branch ''feature-x'' ''2024-01-01T00:00:00Z'') main_threshold ex_state
     = (Inr (True, 200 * Hour), ex_state) \<and>
   (ex_commit_time + 200 * 24 * Hour) - ex_commit_time = 200 * 24 * Hour \<and>
   200 * Hour \<noteq> 200 * 24 * Hour \<and>
   printed (trace (snd (process_branches (ex_env (ex_commit_time + 200 * 24 * Hour) []) ''repo-a''
       main_threshold False [ex_branch ''feature-x'' ''2024-01-01T00:00:00Z''] ex_state)))
     = [StaleBranchFound (Some (JString ''feature-x'')) ''repo-a'' (f64_div (Hours (200 * Hour)) 24)] \<and>
   8 < f64_div (Hours (200 * Hour)) 24 \<and> f64_div (Hours (200 * Hour)) 24 < 9"
proof -
  define env where "env = ex_env (ex_commit_time + 200 * 24 * Hour) []"
  have c: "CheckIfStale env (ex_branch ''feature-x'' ''2024-01-01T00:00:00Z'') main_threshold s
      = (Inr (True, 200 * Hour), s)" for s
    unfolding env_def by (rule ex_stale_200)
  have p: "printed (trace (snd (process_branches env ''repo-a''
       main_threshold False [ex_branch ''feature-x'' ''2024-01-01T00:00:00Z''] ex_state)))
     = [StaleBranchFound (Some (JString ''feature-x'')) ''repo-a'' (f64_div (Hours (200 * Hour)) 24)]"
    by (simp add: process_branches_single c emit_def printed_append ex_branch_target(3) ex_state_def)
  have n: "200 * Hour \<noteq> 200 * 24 * Hour" by (simp add: Hour_def Minute_def Second_def)
  from c [of ex_state] p n displayed_days_200h show ?thesis
    unfolding env_def by simp
qed

subsection \<open>A timestamp that does not parse\<close>

text \<open>
  Claim C5. When the commit timestamp of a branch is a string that \<open>time.Parse\<close>
  rejects, \<open>CheckIfStale\<close> returns not stale with age 0, without a panic and
  without touching the world or the trace; the loop over the branches goes on with
  the remaining branches exactly as if the branch were not there.
\<close>

theorem CheckIfStale_unparsable_not_stale:
  assumes "map_of branch ''target'' = Some (JObject target)"
    and "map_of target ''date'' = Some (JString str)"
    and "time_Parse env str = None"
  shows "CheckIfStale env branch threshold s = (Inr (False, 0), s) \<and>
    process_branches env repoSlug threshold del (branch # rest) s
      = process_branches env repoSlug threshold del rest s"
  using CheckIfStale_unparsed [OF assms] by simp

theorem CheckIfStale_unparsable_not_stale_witness:
  "time_Parse (ex_env 0 []) ''yesterday'' = None \<and>
   CheckIfStale (ex_env 0 []) (ex_branch ''feature-x'' ''yesterday'') main_threshold ex_state
     = (Inr (False, 0), ex_state) \<and>
   process_branches (ex_env 0 []) ''repo-a'' main_threshold True
      [ex_branch ''feature-x'' ''yesterday''] ex_state = (None, ex_state)"
proof -
  have h1: "map_of (ex_branch ''feature-x'' ''yesterday'') ''target''
      = Some (JObject [(''hash'', JString ''0f3c2a''), (''date'', JString ''yesterday'')])"
    by (rule ex_branch_target)
  have h2: "map_of [(''hash'', JString ''0f3c2a''), (''date'', JString ''yesterday'')] ''date''
      = Some (JString ''yesterday'')"
    by (rule ex_branch_target)
  have h3: "time_Parse (ex_env 0 []) ''yesterday'' = None"
    by (simp add: ex_env_def ex_parse_def)
  from CheckIfStale_unparsable_not_stale [OF h1 h2 h3, of main_threshold ex_state "''repo-a''" True "[]"] h3
  show ?thesis by simp
qed

section \<open>The trace of a run\<close>

lemma client_call_eq:
  "http_do env (world s) req = (res, w') \<Longrightarrow>
   client_call env req s = (res, \<lparr>world = w', trace = trace s @ [HttpCall req]\<rparr>)"
  by (simp add: client_call_def)

lemma client_call_trace: "trace (snd (client_call env req s)) = trace s @ [HttpCall req]"
  by (simp add: client_call_def split: prod.splits)

lemma CheckIfStale_trace: "trace (snd (CheckIfStale env branch threshold s)) = trace s"
  by (simp add: CheckIfStale_def time_Since_def Let_def
      split: option.splits json.splits prod.splits)

lemma FetchBranches_trace:
  "trace (snd (FetchBranches env b repoSlug s)) = trace s @ [HttpCall (branches_request b repoSlug)]"
proof -
  obtain res s1 where c: "client_call env (branches_request b repoSlug) s = (res, s1)"
    by (cases "client_call env (branches_request b repoSlug) s")
  with client_call_trace [of env "branches_request b repoSlug" s]
  have "trace s1 = trace s @ [HttpCall (branches_request b repoSlug)]" by simp
  with c show ?thesis by (cases res) (simp_all add: FetchBranches_def)
qed

lemma FetchRepositories_trace:
  "trace (snd (FetchRepositories env b s)) = trace s @ [HttpCall (repositories_request b)]"
proof -
  obtain res s1 where c: "client_call env (repositories_request b) s = (res, s1)"
    by (cases "client_call env (repositories_request b) s")
  with client_call_trace [of env "repositories_request b" s]
  have "trace s1 = trace s @ [HttpCall (repositories_request b)]" by simp
  with c show ?thesis by (cases res) (simp_all add: FetchRepositories_def)
qed

lemma process_branches_delete_calls:
  "delete_calls (trace (snd (process_branches env repoSlug threshold del branches s)))
    = delete_calls (trace s)"
proof (induction branches arbitrary: s)
  case Nil
  show ?case by simp
next
  case (Cons branch rest)
  obtain r s1 where c: "CheckIfStale env branch threshold s = (r, s1)" by (cases "CheckIfStale env branch threshold s")
  with CheckIfStale_trace [of env branch threshold s] have t: "trace s1 = trace s" by simp
  show ?case
  proof (cases r)
    case (Inl p)
    with c t show ?thesis by simp
  next
    case (Inr res)
    obtain isStale age where res: "res = (isStale, age)" by (cases res)
    show ?thesis
      using c Inr res t by (simp add: Cons.IH emit_def delete_calls_append Let_def)
  qed
qed

lemma process_repos_delete_calls:
  "delete_calls (trace (snd (process_repos env b threshold del repos s))) = delete_calls (trace s)"
proof (induction repos arbitrary: s)
  case Nil
  show ?case by simp
next
  case (Cons repo rest)
  show ?case
  proof (cases "\<exists>repoSlug. map_of repo ''slug'' = Some (JString repoSlug)")
    case False
    then show ?thesis by (auto split: option.splits json.splits)
  next
    case True
    then obtain repoSlug where slug: "map_of repo ''slug'' = Some (JString repoSlug)" by blast
    define s0 where "s0 = emit (Printed (CheckingBranches repoSlug)) s"
    obtain r s1 where f: "FetchBranches env b repoSlug s0 = (r, s1)"
      by (cases "FetchBranches env b repoSlug s0")
    have g: "ReqVerb (branches_request b repoSlug) = GET" by (simp add: branches_request_def)
    from f FetchBranches_trace [of env b repoSlug s0]
    have "trace s1 = trace s @ [Printed (CheckingBranches repoSlug), HttpCall (branches_request b repoSlug)]"
      by (simp add: s0_def emit_def)
    then have t1: "delete_calls (trace s1) = delete_calls (trace s)"
      by (simp add: delete_calls_append g)
    show ?thesis
    proof (cases r)
      case (Inl err)
      with slug f have "process_repos env b threshold del (repo # rest) s
          = process_repos env b threshold del rest
              (emit (Printed (ErrorFetchingBranches repoSlug err)) s1)"
        by (simp add: s0_def)
      then show ?thesis by (simp add: Cons.IH emit_def delete_calls_append t1)
    next
      case (Inr branches)
      obtain p s2 where pb: "process_branches env repoSlug threshold del branches s1 = (p, s2)"
        by (cases "process_branches env repoSlug threshold del branches s1")
      with process_branches_delete_calls [of env repoSlug threshold del branches s1] t1
      have t2: "delete_calls (trace s2) = delete_calls (trace s)" by simp
      from slug f Inr pb have "process_repos env b threshold del (repo # rest) s
          = (case p of Some q \<Rightarrow> (Some q, s2)
             | None \<Rightarrow> process_repos env b threshold del rest s2)"
        by (simp add: s0_def split: option.splits)
      then show ?thesis by (cases p) (simp_all add: Cons.IH t2)
    qed
  qed
qed

lemma ListStaleBranches_delete_calls:
  "delete_calls (trace (snd (ListStaleBranches env b threshold del s))) = delete_calls (trace s)"
proof -
  obtain r s1 where f: "FetchRepositories env b s = (r, s1)" by (cases "FetchRepositories env b s")
  have g: "ReqVerb (repositories_request b) = GET" by (simp add: repositories_request_def)
  from f FetchRepositories_trace [of env b s]
  have t1: "delete_calls (trace s1) = delete_calls (trace s)" by (simp add: delete_calls_append g)
  show ?thesis
    using f t1
    by (cases r) (simp_all add: ListStaleBranches_def emit_def delete_calls_append process_repos_delete_calls)
qed

lemma ex_requests:
  "repositories_request ex_client
    = \<lparr>ReqVerb = GET, ReqURL = ''https://api.bitbucket.org/2.0/repositories/acme'', ReqToken = ''s3cr3t''\<rparr>"
  "branches_request ex_client ''repo-a''
    = \<lparr>ReqVerb = GET, ReqURL = ''https://api.bitbucket.org/2.0/repositories/acme/repo-a/refs/branches'',
       ReqToken = ''s3cr3t''\<rparr>"
  "branches_request ex_client ''repo-b''
    = \<lparr>ReqVerb = GET, ReqURL = ''https://api.bitbucket.org/2.0/repositories/acme/repo-b/refs/branches'',
       ReqToken = ''s3cr3t''\<rparr>"
  "delete_request ex_client ''repo-a'' ''feature-x''
    = \<lparr>ReqVerb = DELETE,
       ReqURL = ''https://api.bitbucket.org/2.0/repositories/acme/repo-a/refs/branches/feature-x'',
       ReqToken = ''s3cr3t''\<rparr>"
  by (simp_all add: repositories_request_def branches_request_def delete_request_def
      ex_client_def NewBitbucketClient_def)

lemma ex_workspace_http:
  "http_do (ex_env now ex_workspace) w (repositories_request ex_client)
    = (ex_ok [ex_repo ''repo-a''], ())"
  "http_do (ex_env now ex_workspace) w (branches_request ex_client ''repo-a'')
    = (ex_ok [ex_branch ''feature-x'' ''2024-01-01T00:00:00Z''], ())"
  "http_do (ex_env now ex_workspace) w (delete_request ex_client ''repo-a'' ''feature-x'')
    = (ex_status 204 ''204 No Content'', ())"
  by (simp_all add: ex_env_def ex_http_def ex_workspace_def ex_requests)

lemma ex_workspace_broken_http:
  "http_do (ex_env now ex_workspace_broken) w (repositories_request ex_client)
    = (ex_ok [ex_repo ''repo-a'', ex_repo ''repo-b''], ())"
  "http_do (ex_env now ex_workspace_broken) w (branches_request ex_client ''repo-a'')
    = (ex_status 500 ''500 Internal Server Error'', ())"
  "http_do (ex_env now ex_workspace_broken) w (branches_request ex_client ''repo-b'')
    = (ex_ok [], ())"
  by (simp_all add: ex_env_def ex_http_def ex_workspace_broken_def ex_requests)

lemma ex_workspace_unauthorized_http:
  "http_do (ex_env now ex_workspace_unauthorized) w (repositories_request ex_client)
    = (ex_status 401 ''401 Unauthorized'', ())"
  by (simp add: ex_env_def ex_http_def ex_workspace_unauthorized_def)

section \<open>DeleteBranch\<close>

lemma protected_loop_protectedBranches:
  "protected_loop protectedBranches branchName
    = (branchName = ''main'' \<or> branchName = ''master'' \<or> branchName = ''develop'')"
  by (simp add: protectedBranches_def)

text \<open>
  Claim C6. The guard of \<open>DeleteBranch\<close>, the loop over \<open>protectedBranches\<close>, answers
  true exactly for the names \<open>main\<close>, \<open>master\<close> and \<open>develop\<close>, compared as
  strings character by character; \<open>Main\<close> is not protected.
\<close>

theorem protected_loop_exact:
  "protected_loop protectedBranches branchName = (branchName \<in> {''main'', ''master'', ''develop''})
   \<and> \<not> protected_loop protectedBranches ''Main''"
  by (simp add: protectedBranches_def)

theorem protected_loop_exact_witness:
  "protected_loop protectedBranches ''develop'' \<and> \<not> protected_loop protectedBranches ''Develop''"
  using protected_loop_exact [of "''develop''"] protected_loop_exact [of "''Develop''"] by simp

text \<open>
  Claim C1. For a protected branch name \<open>DeleteBranch\<close> makes no HTTP call at all,
  whatever the repository and the environment: its only effect is the printed notice.
  \<open>ListStaleBranches\<close> adds no \<open>DELETE\<close> call to the trace either, whatever the
  delete flag is.
\<close>

theorem DeleteBranch_protected_no_delete:
  assumes "branchName \<in> {''main'', ''master'', ''develop''}"
  shows "http_calls (trace (snd (DeleteBranch env b repoSlug branchName s))) = http_calls (trace s)
    \<and> printed (trace (snd (DeleteBranch env b repoSlug branchName s)))
        = printed (trace s) @ [BranchProtected branchName]
    \<and> delete_calls (trace (snd (ListStaleBranches env b threshold del s))) = delete_calls (trace s)"
  using assms
  by (auto simp: DeleteBranch_def protectedBranches_def emit_def http_calls_append printed_append
      ListStaleBranches_delete_calls)

theorem DeleteBranch_protected_no_delete_witness:
  "''master'' \<in> {''main'', ''master'', ''develop''} \<and>
   http_calls (trace (snd (DeleteBranch (ex_env 0 []) ex_client ''repo-a'' ''master'' ex_state))) = [] \<and>
   printed (trace (snd (DeleteBranch (ex_env 0 []) ex_client ''repo-a'' ''master'' ex_state)))
     = [BranchProtected ''master''] \<and>
   delete_calls (trace (snd (ListStaleBranches (ex_env 0 []) ex_client main_threshold True ex_state))) = []"
proof -
  have h: "''master'' \<in> {''main'', ''master'', ''develop''}" by simp
  have t: "trace ex_state = []" by (simp add: ex_state_def)
  from DeleteBranch_protected_no_delete [OF h, of "ex_env 0 []" ex_client "''repo-a''" ex_state main_threshold True] h
  show ?thesis by (simp add: t)
qed

text \<open>
  Claim C9. For a branch name that is not protected, \<open>DeleteBranch\<close> makes one
  \<open>DELETE\<close> call and returns nil exactly when the client returns a response with
  status code 204; an error of the client and every other status code are returned as
  an error value.
\<close>

theorem DeleteBranch_success_iff_204:
  assumes "branchName \<notin> {''main'', ''master'', ''develop''}"
    and "http_do env (world s) (delete_request b repoSlug branchName) = (res, w')"
  shows "fst (DeleteBranch env b repoSlug branchName s) =
      (case res of
         Inl err \<Rightarrow> Some (ClientError err)
       | Inr resp \<Rightarrow>
           if StatusCode resp = 204 then None
           else Some (FailedToDeleteBranch branchName (Status resp)))
    \<and> (fst (DeleteBranch env b repoSlug branchName s) = None)
        = (case res of Inl err \<Rightarrow> False | Inr resp \<Rightarrow> StatusCode resp = 204)
    \<and> http_calls (trace (snd (DeleteBranch env b repoSlug branchName s)))
        = http_calls (trace s) @ [delete_request b repoSlug branchName]"
  using assms
  by (auto simp: DeleteBranch_def protected_loop_protectedBranches client_call_eq emit_def
      http_calls_append split: sum.splits)

theorem DeleteBranch_success_iff_204_witness:
  "''feature-x'' \<notin> {''main'', ''master'', ''develop''} \<and>
   fst (DeleteBranch (ex_env 0 ex_workspace) ex_client ''repo-a'' ''feature-x'' ex_state) = None \<and>
   http_calls (trace (snd (DeleteBranch (ex_env 0 ex_workspace) ex_client ''repo-a'' ''feature-x'' ex_state)))
     = [delete_request ex_client ''repo-a'' ''feature-x'']"
proof -
  have h1: "''feature-x'' \<notin> {''main'', ''master'', ''develop''}" by simp
  have h2: "http_do (ex_env 0 ex_workspace) (world ex_state)
      (delete_request ex_client ''repo-a'' ''feature-x'') = (ex_status 204 ''204 No Content'', ())"
    by (rule ex_workspace_http)
  have t: "trace ex_state = []" by (simp add: ex_state_def)
  from DeleteBranch_success_iff_204 [OF h1 h2] h1 show ?thesis by (simp add: ex_status_def t)
qed

text \<open>
  Claim C10. For a protected name \<open>DeleteBranch\<close> returns nil, makes no HTTP call
  and leaves the world as it is. A deletion that the API answers with 204 returns the
  same nil: the two outcomes differ only in the line printed to the console.
\<close>

theorem DeleteBranch_protected_returns_nil:
  assumes "p \<in> {''main'', ''master'', ''develop''}"
    and "q \<notin> {''main'', ''master'', ''develop''}"
    and "http_do env (world s) (delete_request b repoSlug q) = (Inr resp, w')"
    and "StatusCode resp = 204"
  shows "fst (DeleteBranch env b repoSlug p s) = None
    \<and> http_calls (trace (snd (DeleteBranch env b repoSlug p s))) = http_calls (trace s)
    \<and> world (snd (DeleteBranch env b repoSlug p s)) = world s
    \<and> fst (DeleteBranch env b repoSlug q s) = fst (DeleteBranch env b repoSlug p s)
    \<and> printed (trace (snd (DeleteBranch env b repoSlug p s)))
        = printed (trace s) @ [BranchProtected p]
    \<and> printed (trace (snd (DeleteBranch env b repoSlug q s)))
        = printed (trace s) @ [BranchDeleted q repoSlug]"
proof -
  have p: "DeleteBranch env b repoSlug p s = (None, emit (Printed (BranchProtected p)) s)"
    using assms(1) by (auto simp: DeleteBranch_def protected_loop_protectedBranches)
  have q: "DeleteBranch env b repoSlug q s
      = (None, emit (Printed (BranchDeleted q repoSlug))
           \<lparr>world = w', trace = trace s @ [HttpCall (delete_request b repoSlug q)]\<rparr>)"
    using assms(2-4) by (simp add: DeleteBranch_def protected_loop_protectedBranches client_call_eq)
  show ?thesis
    by (simp add: p q emit_def http_calls_append printed_append)
qed

theorem DeleteBranch_protected_returns_nil_witness:
  "''master'' \<in> {''main'', ''master'', ''develop''} \<and>
   ''feature-x'' \<notin> {''main'', ''master'', ''develop''} \<and>
   fst (DeleteBranch (ex_env 0 ex_workspace) ex_client ''repo-a'' ''master'' ex_state) = None \<and>
   fst (DeleteBranch (ex_env 0 ex_workspace) ex_client ''repo-a'' ''feature-x'' ex_state) = None \<and>
   http_calls (trace (snd (DeleteBranch (ex_env 0 ex_workspace) ex_client ''repo-a'' ''master'' ex_state))) = [] \<and>
   printed (trace (snd (DeleteBranch (ex_env 0 ex_workspace) ex_client ''repo-a'' ''master'' ex_state)))
     = [BranchProtected ''master''] \<and>
   printed (trace (snd (DeleteBranch (ex_env 0 ex_workspace) ex_client ''repo-a'' ''feature-x'' ex_state)))
     = [BranchDeleted ''feature-x'' ''repo-a'']"
proof -
  have h1: "''master'' \<in> {''main'', ''master'', ''develop''}" by simp
  have h2: "''feature-x'' \<notin> {''main'', ''master'', ''develop''}" by simp
  have h3: "http_do (ex_env 0 ex_workspace) (world ex_state)
      (delete_request ex_client ''repo-a'' ''feature-x'')
      = (Inr \<lparr>StatusCode = 204, Status = ''204 No Content'', Result = []\<rparr>, ())"
    using ex_workspace_http(3) [of 0 "world ex_state"] by (simp add: ex_status_def)
  have h4: "StatusCode \<lparr>StatusCode = 204, Status = ''204 No Content'', Result = []\<rparr> = 204" by simp
  have t: "trace ex_state = []" by (simp add: ex_state_def)
  from DeleteBranch_protected_returns_nil [OF h1 h2 h3 h4] h1 h2 show ?thesis by (simp add: t)
qed

section \<open>ListStaleBranches\<close>

text \<open>
  Claim C7. When listing the branches of a repository fails, by an error of the
  client or by a status code other than 200, the loop over the repositories prints
  the error and goes on with the remaining repositories.
\<close>

theorem process_repos_continues_after_fetch_failure:
  assumes "map_of repo ''slug'' = Some (JString repoSlug)"
    and "http_do env (world s) (branches_request b repoSlug) = (res, w')"
    and "case res of Inl msg \<Rightarrow> True | Inr resp \<Rightarrow> StatusCode resp \<noteq> 200"
  shows "process_repos env b threshold del (repo # rest) s =
    process_repos env b threshold del rest
      \<lparr>world = w',
       trace = trace s @
         [Printed (CheckingBranches repoSlug),
          HttpCall (branches_request b repoSlug),
          Printed (ErrorFetchingBranches repoSlug
            (case res of
               Inl msg \<Rightarrow> ClientError msg
             | Inr resp \<Rightarrow> FailedToFetchBranches repoSlug (Status resp)))]\<rparr>"
proof -
  have "http_do env (world (emit (Printed (CheckingBranches repoSlug)) s))
      (branches_request b repoSlug) = (res, w')"
    using assms(2) by (simp add: emit_def)
  from client_call_eq [OF this] assms(1,3) show ?thesis
    by (cases res) (simp_all add: FetchBranches_def emit_def)
qed

theorem process_repos_continues_after_fetch_failure_witness:
  "map_of (ex_repo ''repo-a'') ''slug'' = Some (JString ''repo-a'') \<and>
   process_repos (ex_env 0 ex_workspace_broken) ex_client main_threshold True
     [ex_repo ''repo-a'', ex_repo ''repo-b''] ex_state =
   (None,
    \<lparr>world = (),
     trace =
       [Printed (CheckingBranches ''repo-a''),
        HttpCall (branches_request ex_client ''repo-a''),
        Printed (ErrorFetchingBranches ''repo-a''
          (FailedToFetchBranches ''repo-a'' ''500 Internal Server Error'')),
        Printed (CheckingBranches ''repo-b''),
        HttpCall (branches_request ex_client ''repo-b'')]\<rparr>)"
proof -
  have h1: "map_of (ex_repo ''repo-a'') ''slug'' = Some (JString ''repo-a'')"
    by (simp add: ex_repo_def)
  have h2: "http_do (ex_env 0 ex_workspace_broken) (world ex_state)
      (branches_request ex_client ''repo-a'')
      = (Inr \<lparr>StatusCode = 500, Status = ''500 Internal Server Error'', Result = []\<rparr>, ())"
    using ex_workspace_broken_http(2) [of 0 "world ex_state"] by (simp add: ex_status_def)
  have h3: "case Inr \<lparr>StatusCode = 500, Status = ''500 Internal Server Error'', Result = []\<rparr>
      of Inl (msg :: string) \<Rightarrow> True | Inr resp \<Rightarrow> StatusCode resp \<noteq> 200"
    by simp
  have b: "map_of (ex_repo ''repo-b'') ''slug'' = Some (JString ''repo-b'')"
    by (simp add: ex_repo_def)
  have t: "trace ex_state = []" by (simp add: ex_state_def)
  have "process_repos (ex_env 0 ex_workspace_broken) ex_client main_threshold True
     [ex_repo ''repo-a'', ex_repo ''repo-b''] ex_state =
     process_repos (ex_env 0 ex_workspace_broken) ex_client main_threshold True [ex_repo ''repo-b'']
      \<lparr>world = (),
       trace = [Printed (CheckingBranches ''repo-a''),
          HttpCall (branches_request ex_client ''repo-a''),
          Printed (ErrorFetchingBranches ''repo-a''
            (FailedToFetchBranches ''repo-a'' ''500 Internal Server Error''))]\<rparr>"
    using process_repos_continues_after_fetch_failure [OF h1 h2 h3, where threshold = main_threshold and del = True
        and rest = "[ex_repo ''repo-b'']"]
    by (simp add: t)
  also have "\<dots> = (None,
    \<lparr>world = (),
     trace =
       [Printed (CheckingBranches ''repo-a''),
        HttpCall (branches_request ex_client ''repo-a''),
        Printed (ErrorFetchingBranches ''repo-a''
          (FailedToFetchBranches ''repo-a'' ''500 Internal Server Error'')),
        Printed (CheckingBranches ''repo-b''),
        HttpCall (branches_request ex_client ''repo-b'')]\<rparr>)"
    by (simp add: b FetchBranches_def client_call_def emit_def ex_workspace_broken_http ex_ok_def)
  finally show ?thesis using h1 by simp
qed

text \<open>
  Claim C8. When listing the repositories fails, by an error of the client or by a
  status code other than 200, \<open>ListStaleBranches\<close> prints the error and returns:
  the trace holds the one call and the one line, and nothing else happens.
\<close>

theorem ListStaleBranches_stops_on_repository_fetch_failure:
  assumes "http_do env (world s) (repositories_request b) = (res, w')"
    and "case res of Inl msg \<Rightarrow> True | Inr resp \<Rightarrow> StatusCode resp \<noteq> 200"
  shows "ListStaleBranches env b threshold del s =
    (None,
     \<lparr>world = w',
      trace = trace s @
        [HttpCall (repositories_request b),
         Printed (ErrorFetchingRepositories
           (case res of
              Inl msg \<Rightarrow> ClientError msg
            | Inr resp \<Rightarrow> FailedToFetchRepositories (Status resp)))]\<rparr>)"
  using client_call_eq [OF assms(1)] assms(2)
  by (cases res) (simp_all add: ListStaleBranches_def FetchRepositories_def emit_def)

theorem ListStaleBranches_stops_on_repository_fetch_failure_witness:
  "ListStaleBranches (ex_env 0 ex_workspace_unauthorized) ex_client main_threshold True ex_state =
    (None,
     \<lparr>world = (),
      trace =
        [HttpCall (repositories_request ex_client),
         Printed (ErrorFetchingRepositories (FailedToFetchRepositories ''401 Unauthorized''))]\<rparr>)"
proof -
  have h1: "http_do (ex_env 0 ex_workspace_unauthorized) (world ex_state)
      (repositories_request ex_client)
      = (Inr \<lparr>StatusCode = 401, Status = ''401 Unauthorized'', Result = []\<rparr>, ())"
    using ex_workspace_unauthorized_http [of 0 "world ex_state"] by (simp add: ex_status_def)
  have h2: "case Inr \<lparr>StatusCode = 401, Status = ''401 Unauthorized'', Result = []\<rparr>
      of Inl (msg :: string) \<Rightarrow> True | Inr resp \<Rightarrow> StatusCode resp \<noteq> 200"
    by simp
  have t: "trace ex_state = []" by (simp add: ex_state_def)
  from ListStaleBranches_stops_on_repository_fetch_failure [OF h1 h2, where threshold = main_threshold and del = True]
  show ?thesis by (simp add: t)
qed

text \<open>
  Claim C3. The claim is that with the delete flag set every stale branch that is
  not protected is deleted through \<open>DeleteBranch\<close> and the result reported. In the
  source that call is commented out: for the stale, unprotected branch \<open>feature-x\<close>
  the run prints \<open>Blaaa\<close> and makes no \<open>DELETE\<close> call.
\<close>

theorem ListStaleBranches_delete_flag_placeholder:
  "ListStaleBranches (ex_env (ex_commit_time + 200 * 24 * Hour) ex_workspace) ex_client
     main_threshold True ex_state =
    (None,
     \<lparr>world = (),
      trace =
        [HttpCall (repositories_request ex_client),
         Printed (CheckingBranches ''repo-a''),
         HttpCall (branches_request ex_client ''repo-a''),
         Printed (StaleBranchFound (Some (JString ''feature-x'')) ''repo-a''
           (f64_div (Hours (200 * Hour)) 24)),
         Printed Blaaa]\<rparr>)
   \<and> ''feature-x'' \<notin> {''main'', ''master'', ''develop''}"
proof -
  define env where "env = ex_env (ex_commit_time + 200 * 24 * Hour) ex_workspace"
  have r: "map_of (ex_repo ''repo-a'') ''slug'' = Some (JString ''repo-a'')"
    by (simp add: ex_repo_def)
  have c: "CheckIfStale env (ex_branch ''feature-x'' ''2024-01-01T00:00:00Z'') main_threshold s
      = (Inr (True, 200 * Hour), s)" for s
    unfolding env_def by (rule ex_stale_200)
  have h: "http_do env w (repositories_request ex_client) = (ex_ok [ex_repo ''repo-a''], ())"
    "http_do env w (branches_request ex_client ''repo-a'')
      = (ex_ok [ex_branch ''feature-x'' ''2024-01-01T00:00:00Z''], ())" for w
    unfolding env_def by (rule ex_workspace_http)+
  have "ListStaleBranches env ex_client main_threshold True ex_state =
    (None,
     \<lparr>world = (),
      trace =
        [HttpCall (repositories_request ex_client),
         Printed (CheckingBranches ''repo-a''),
         HttpCall (branches_request ex_client ''repo-a''),
         Printed (StaleBranchFound (Some (JString ''feature-x'')) ''repo-a''
           (f64_div (Hours (200 * Hour)) 24)),
         Printed Blaaa]\<rparr>)"
    by (simp add: ListStaleBranches_def FetchRepositories_def FetchBranches_def client_call_def
        emit_def h ex_ok_def r c ex_branch_target(3) ex_state_def)
  then show ?thesis by (simp add: env_def)
qed

end
